theory Spec2Isabelle
  imports Complex_Main "HOL-Library.Word"
begin

section \<open>Heat-bed controller: data model\<close>

text \<open>
  The repository holds several copies of the firmware, and some functions have more
  than one body. The model takes each function from one file:
  \<^item> \<^verbatim>\<open>src/tempControl.cpp\<close>: \<^verbatim>\<open>readTemperature\<close>, \<^verbatim>\<open>readTargetTemperature\<close>,
    \<^verbatim>\<open>updateTemperaturePWM\<close>, \<^verbatim>\<open>controlHeating\<close>, \<^verbatim>\<open>checkThermalSafety\<close>,
    \<^verbatim>\<open>calculatePID\<close>, \<^verbatim>\<open>controlHeatingWithPID\<close>, \<^verbatim>\<open>printSystemStatus\<close> and the
    lookup table;
  \<^item> \<^verbatim>\<open>src/unnamed/part_001\<close>: \<^verbatim>\<open>loop\<close>, \<^verbatim>\<open>updateAllSections\<close> and the initial
    values of the globals;
  \<^item> \<^verbatim>\<open>src/unnamed/part_002\<close>: \<^verbatim>\<open>processSerialCommands\<close>,
    \<^verbatim>\<open>processExternalCommand\<close>, \<^verbatim>\<open>printHelp\<close> and \<^verbatim>\<open>deactivateAllSegments\<close>;
  \<^item> \<^verbatim>\<open>src/Codigo.txt\<close>: \<^verbatim>\<open>activateSegment\<close>, \<^verbatim>\<open>deactivateSegment\<close>,
    \<^verbatim>\<open>activateAllSegments\<close> and \<^verbatim>\<open>configurePWMRange\<close>, whose bodies are empty in
    part_002;
  \<^item> \<^verbatim>\<open>src/Safety.cpp\<close>: \<^verbatim>\<open>resetThermalSafety\<close>; \<^verbatim>\<open>src/Debug.cpp\<close>:
    \<^verbatim>\<open>debugMonitor\<close>, \<^verbatim>\<open>printActiveSegments\<close> and
    \<^verbatim>\<open>printActiveSegmentsPeriodically\<close>.

  Numbers are those of the board, an Arduino Mega (AVR). A \<^verbatim>\<open>float\<close> (and a
  \<^verbatim>\<open>double\<close>, the same 32-bit type there) is a single-precision number: it is kept as
  the real number it denotes, and every float operation rounds its exact result to the
  nearest number with a 24-bit mantissa, ties to even (\<^verbatim>\<open>f32\<close>). The exponent range is
  not bounded: overflow to infinity and subnormal numbers are left out. The one float
  operation of the code that leaves the finite range, the division by \<^verbatim>\<open>deltaTime\<close> in
  \<^verbatim>\<open>calculatePID\<close>, gets a result type with the IEEE infinities and NaN. An
  \<^verbatim>\<open>unsigned long\<close> timestamp is a 32-bit word, so differences wrap as on the board.
  An \<^verbatim>\<open>int\<close> has 16 bits and a \<^verbatim>\<open>long\<close> 32: they are kept as integers, with the
  wrap-around written out (\<^verbatim>\<open>to_int16\<close>, \<^verbatim>\<open>to_int32\<close>) where the code narrows a value
  or computes in \<^verbatim>\<open>long\<close>; counters and indices of the code stay far below the limit.

  The hardware is an input of the model: every pass over the segments takes a
  \<^emph>\<open>sampling\<close>, which gives for segment \<^verbatim>\<open>i\<close> what \<^verbatim>\<open>millis()\<close> and
  \<^verbatim>\<open>analogRead(tempSensors[i])\<close> return when the pass visits that segment. Lines
  waiting on the two serial ports, everything printed on \<^verbatim>\<open>Serial\<close> and every
  \<^verbatim>\<open>analogWrite\<close> are kept in the state.
\<close>

type_synonym millis = "32 word"

type_synonym sampling = "nat \<Rightarrow> millis \<times> int"

datatype level = LOW | HIGH

datatype fault = TableIndexOutOfBounds int | MapDivisionByZero | FloatToLongOutOfRange

datatype fl = Fin real | PInf | NInf | NaN

datatype serial_item = Str string | Num int | Flt fl | NL

record state =
  activeSegments :: "bool list"
  relayLevel :: "level list"
  cachedTemperatures :: "real list"
  lastReadTime :: "millis list"
  pidIntegral :: "real list"
  pidLastError :: "real list"
  pidLastUpdate :: "millis list"
  targetTemp :: "real list"
  pwmMinValue :: int
  pwmMaxValue :: int
  tempMin :: real
  tempMax :: real
  debugMode :: bool
  thermalSafetyTriggered :: bool
  lastPrintTime :: millis
  analogWrites :: "(nat \<times> int) list"
  serialOut :: "serial_item list"
  serialRx :: "string list"
  serial1Rx :: "string list"

text \<open>\<^verbatim>\<open>relayLevel ! i\<close> is the level last written to \<^verbatim>\<open>relayPins[i]\<close> by
  \<^verbatim>\<open>digitalWrite\<close>. \<^verbatim>\<open>analogWrites\<close> lists the calls of \<^verbatim>\<open>analogWrite\<close> in order,
  each as the section whose pin \<^verbatim>\<open>pwmOutPins[s]\<close> was written and the value.
  \<^verbatim>\<open>serialOut\<close> lists what was printed on \<^verbatim>\<open>Serial\<close>; \<^verbatim>\<open>serialRx\<close> and
  \<^verbatim>\<open>serial1Rx\<close> hold the lines waiting on \<^verbatim>\<open>Serial\<close> and \<^verbatim>\<open>Serial1\<close>.
  \<^verbatim>\<open>lastPrintTime\<close> is the static variable of \<^verbatim>\<open>printActiveSegmentsPeriodically\<close>.\<close>

definition wf_state :: "state \<Rightarrow> bool" where
  "wf_state st = (length (activeSegments st) = 16 \<and> length (relayLevel st) = 16 \<and>
     length (cachedTemperatures st) = 16 \<and> length (lastReadTime st) = 16 \<and>
     length (pidIntegral st) = 16 \<and> length (pidLastError st) = 16 \<and>
     length (pidLastUpdate st) = 16 \<and> length (targetTemp st) = 4)"

text \<open>The globals as initialised in part_001, with the relays as \<^verbatim>\<open>setupPins\<close>
  (part_000) leaves them.\<close>

definition initial_state :: state where
  "initial_state = \<lparr> activeSegments = replicate 16 False, relayLevel = replicate 16 HIGH,
     cachedTemperatures = replicate 16 0, lastReadTime = replicate 16 0,
     pidIntegral = replicate 16 0, pidLastError = replicate 16 0,
     pidLastUpdate = replicate 16 0, targetTemp = replicate 4 0,
     pwmMinValue = 0, pwmMaxValue = 255, tempMin = 0, tempMax = 280,
     debugMode = False, thermalSafetyTriggered = False, lastPrintTime = 0,
     analogWrites = [], serialOut = [], serialRx = [], serial1Rx = [] \<rparr>"

definition readInterval :: millis where
  "readInterval = 1000"

definition MAX_SAFE_TEMPERATURE :: real where
  "MAX_SAFE_TEMPERATURE = 120"

definition TEMP_HYSTERESIS :: real where
  "TEMP_HYSTERESIS = 2"

definition PID_OUTPUT_THRESHOLD :: real where
  "PID_OUTPUT_THRESHOLD = 1 / 2"

definition pidKp :: real where
  "pidKp = 2"

definition pidKi :: real where
  "pidKi = 1 / 2"

definition pidKd :: real where
  "pidKd = 1"

definition tempTable :: "(int \<times> int) list" where
  "tempTable = [(1, 300), (200, 250), (300, 200), (400, 150), (500, 120),
                (600, 90), (700, 60), (800, 30), (900, 10), (1023, 0)]"

definition tempTableSize :: nat where
  "tempTableSize = length tempTable"

text \<open>The analog pins \<^verbatim>\<open>A0..A15\<close> of the Arduino Mega are the pin numbers 54..69 (the
  board's pin map, which is not part of the repository).\<close>

definition tempSensors :: "int list" where
  "tempSensors = [54, 55, 56, 57, 58, 59, 60, 61, 62, 63, 64, 65, 66, 67, 68, 69]"

section \<open>Machine numbers\<close>

text \<open>The value of an integer in a 16-bit \<^verbatim>\<open>int\<close> and in a 32-bit \<^verbatim>\<open>long\<close>, two's
  complement.\<close>

definition to_int16 :: "int \<Rightarrow> int" where
  "to_int16 x = (x + 32768) mod 65536 - 32768"

definition to_int32 :: "int \<Rightarrow> int" where
  "to_int32 x = (x + 2147483648) mod 4294967296 - 2147483648"

text \<open>Rounding to single precision. A positive number is scaled by powers of two until
  its mantissa lies in [2^23, 2^24); the mantissa is rounded to the nearest integer, ties
  to even.\<close>

function scaleDown :: "real \<Rightarrow> int \<Rightarrow> real \<times> int" where
  "scaleDown y e = (if 16777216 \<le> y then scaleDown (y / 2) (e + 1) else (y, e))"
  by pat_completeness auto
termination
proof (relation "measure (\<lambda>(y, e). nat \<lfloor>y\<rfloor>)")
  show "wf (measure (\<lambda>(y, e). nat \<lfloor>y\<rfloor>))" by simp
next
  fix y :: real and e :: int
  assume a: "16777216 \<le> y"
  have "real_of_int \<lfloor>y / 2\<rfloor> \<le> y / 2" by (rule of_int_floor_le)
  moreover have "y - 1 < \<lfloor>y\<rfloor>" by linarith
  ultimately have "real_of_int \<lfloor>y / 2\<rfloor> < real_of_int \<lfloor>y\<rfloor>" using a by linarith
  then have "\<lfloor>y / 2\<rfloor> < \<lfloor>y\<rfloor>" by simp
  moreover have "0 < \<lfloor>y\<rfloor>" using a by linarith
  ultimately show "((y / 2, e + 1), (y, e)) \<in> measure (\<lambda>(y, e). nat \<lfloor>y\<rfloor>)" by simp
qed

function scaleUp :: "real \<Rightarrow> int \<Rightarrow> real \<times> int" where
  "scaleUp y e = (if 0 < y \<and> y < 8388608 then scaleUp (2 * y) (e - 1) else (y, e))"
  by pat_completeness auto
termination
proof (relation "measure (\<lambda>(y, e). nat \<lfloor>8388608 / y\<rfloor>)")
  show "wf (measure (\<lambda>(y, e). nat \<lfloor>8388608 / y\<rfloor>))" by simp
next
  fix y :: real and e :: int
  assume a: "0 < y \<and> y < 8388608"
  define z where "z = 8388608 / y"
  have z1: "1 < z" using a by (simp add: z_def)
  have h: "8388608 / (2 * y) = z / 2" by (simp add: z_def)
  have "real_of_int \<lfloor>z / 2\<rfloor> \<le> z / 2" by (rule of_int_floor_le)
  then have "real_of_int (2 * \<lfloor>z / 2\<rfloor>) \<le> z" by simp
  then have "2 * \<lfloor>z / 2\<rfloor> \<le> \<lfloor>z\<rfloor>" by (simp only: le_floor_iff)
  moreover have "0 < \<lfloor>z\<rfloor>" using z1 by linarith
  ultimately have "\<lfloor>z / 2\<rfloor> < \<lfloor>z\<rfloor>" by linarith
  moreover note \<open>0 < \<lfloor>z\<rfloor>\<close>
  ultimately show "((2 * y, e - 1), (y, e)) \<in> measure (\<lambda>(y, e). nat \<lfloor>8388608 / y\<rfloor>)"
    unfolding h by (simp add: z_def)
qed

declare scaleDown.simps [simp del] scaleUp.simps [simp del]

definition round_even :: "real \<Rightarrow> int" where
  "round_even y =
     (let n = \<lfloor>y\<rfloor>; d = y - of_int n in
      if d < 1 / 2 then n else if 1 / 2 < d then n + 1 else if even n then n else n + 1)"

definition f32 :: "real \<Rightarrow> real" where
  "f32 x =
     (if x = 0 then 0
      else
        let (y1, e1) = scaleDown \<bar>x\<bar> 0;
            (y, e) = scaleUp y1 e1
        in sgn x * of_int (round_even y) * 2 powi e)"

text \<open>The float operations on finite values, and the conversion of an integer to
  float. \<^verbatim>\<open>fdiv\<close> is used where the code has made sure that the divisor is not zero.\<close>

definition fadd :: "real \<Rightarrow> real \<Rightarrow> real" where
  "fadd x y = f32 (x + y)"

definition fsub :: "real \<Rightarrow> real \<Rightarrow> real" where
  "fsub x y = f32 (x - y)"

definition fmul :: "real \<Rightarrow> real \<Rightarrow> real" where
  "fmul x y = f32 (x * y)"

definition fdiv :: "real \<Rightarrow> real \<Rightarrow> real" where
  "fdiv x y = f32 (x / y)"

definition float_of_int :: "int \<Rightarrow> real" where
  "float_of_int n = f32 (of_int n)"

section \<open>Serial output and loops\<close>

definition prints :: "serial_item list \<Rightarrow> state \<Rightarrow> state" where
  "prints xs st = st\<lparr>serialOut := serialOut st @ xs\<rparr>"

text \<open>The bytes of the degree sign and \<^verbatim>\<open>C\<close>, as the UTF-8 source has them.\<close>

definition degC :: string where
  "degC = [CHR 0xC2, CHR 0xB0, CHR ''C'']"

definition andThen :: "fault + 'a \<Rightarrow> ('a \<Rightarrow> fault + 'b) \<Rightarrow> fault + 'b" where
  "andThen r f = (case r of Inl e \<Rightarrow> Inl e | Inr x \<Rightarrow> f x)"

text \<open>A \<^verbatim>\<open>for\<close> loop without \<^verbatim>\<open>break\<close>: the body runs for each index in turn, and a
  fault ends the run.\<close>

fun forEach :: "nat list \<Rightarrow> (nat \<Rightarrow> 's \<Rightarrow> fault + 's) \<Rightarrow> 's \<Rightarrow> fault + 's" where
  "forEach [] body s = Inr s"
| "forEach (i # is) body s = andThen (body i s) (forEach is body)"

section \<open>Arduino core functions\<close>

text \<open>These belong to the Arduino core, not to the repository; they are written as the
  AVR core defines them. \<^verbatim>\<open>constrain(amt, low, high)\<close> is the macro
  \<^verbatim>\<open>((amt)<(low)?(low):((amt)>(high)?(high):(amt)))\<close>; \<^verbatim>\<open>map\<close> is
  \<^verbatim>\<open>(x - in_min) * (out_max - out_min) / (in_max - in_min) + out_min\<close> on \<^verbatim>\<open>long\<close>
  values: every operation wraps to 32 bits, as the instructions of the board do, and
  the division is C's, which truncates towards zero and has no defined result for a
  zero divisor; \<^verbatim>\<open>pulseIn\<close> returns the length of the pulse in microseconds, or 0 when
  no complete pulse arrived before the timeout, and the code stores it in an \<^verbatim>\<open>int\<close>.
  A float passed for a \<^verbatim>\<open>long\<close> parameter is truncated towards zero; C defines no
  result when the truncated value does not fit.\<close>

definition c_div :: "int \<Rightarrow> int \<Rightarrow> int" where
  "c_div a b = sgn a * sgn b * (\<bar>a\<bar> div \<bar>b\<bar>)"

definition truncated :: "real \<Rightarrow> int" where
  "truncated x = (if 0 \<le> x then \<lfloor>x\<rfloor> else \<lceil>x\<rceil>)"

definition to_long :: "real \<Rightarrow> fault + int" where
  "to_long x =
     (if - 2147483648 \<le> truncated x \<and> truncated x \<le> 2147483647 then Inr (truncated x)
      else Inl FloatToLongOutOfRange)"

definition map_arduino :: "int \<Rightarrow> int \<Rightarrow> int \<Rightarrow> int \<Rightarrow> int \<Rightarrow> fault + int" where
  "map_arduino x in_min in_max out_min out_max =
     (let divisor = to_int32 (in_max - in_min) in
      if divisor = 0 then Inl MapDivisionByZero
      else
        let product = to_int32 (to_int32 (x - in_min) * to_int32 (out_max - out_min));
            quotient = to_int32 (c_div product divisor)
        in Inr (to_int32 (quotient + out_min)))"

definition constrain_int :: "int \<Rightarrow> int \<Rightarrow> int \<Rightarrow> int" where
  "constrain_int amt low high = (if amt < low then low else if amt > high then high else amt)"

fun fl_less :: "fl \<Rightarrow> real \<Rightarrow> bool" where
  "fl_less (Fin a) b = (a < b)"
| "fl_less NInf b = True"
| "fl_less PInf b = False"
| "fl_less NaN b = False"

fun fl_greater :: "fl \<Rightarrow> real \<Rightarrow> bool" where
  "fl_greater (Fin a) b = (a > b)"
| "fl_greater PInf b = True"
| "fl_greater NInf b = False"
| "fl_greater NaN b = False"

definition constrain_fl :: "fl \<Rightarrow> real \<Rightarrow> real \<Rightarrow> fl" where
  "constrain_fl amt low high =
     (if fl_less amt low then Fin low else if fl_greater amt high then Fin high else amt)"

text \<open>Float division of finite operands: a zero divisor gives an infinity with the sign
  of the dividend, and NaN for \<^verbatim>\<open>0 / 0\<close>. The divisor of the code is never negative
  zero.\<close>

definition fl_div :: "real \<Rightarrow> real \<Rightarrow> fl" where
  "fl_div x y =
     (if y = 0 then (if 0 < x then PInf else if x < 0 then NInf else NaN)
      else Fin (fdiv x y))"

fun fl_add :: "real \<Rightarrow> fl \<Rightarrow> fl" where
  "fl_add a (Fin b) = Fin (fadd a b)"
| "fl_add a PInf = PInf"
| "fl_add a NInf = NInf"
| "fl_add a NaN = NaN"

datatype pulse = NoPulse | PulseWidth nat

fun pulseIn :: "pulse \<Rightarrow> int" where
  "pulseIn NoPulse = 0"
| "pulseIn (PulseWidth w) = int w"

text \<open>\<^verbatim>\<open>String::toInt\<close> is \<^verbatim>\<open>atol\<close> on the text: blanks, an optional sign and decimal
  digits, accumulated in a \<^verbatim>\<open>long\<close>; 0 when no digit is found.\<close>

definition isspace :: "char \<Rightarrow> bool" where
  "isspace c = (c \<in> set [CHR '' '', CHR 0x09, CHR 0x0A, CHR 0x0B, CHR 0x0C, CHR 0x0D])"

fun digitsValue :: "string \<Rightarrow> int \<Rightarrow> int" where
  "digitsValue [] acc = acc"
| "digitsValue (c # cs) acc =
     (let d = (of_char c :: nat) in
      if 48 \<le> d \<and> d \<le> 57 then digitsValue cs (to_int32 (10 * acc + (int d - 48))) else acc)"

definition atol :: "string \<Rightarrow> int" where
  "atol s =
     (case dropWhile isspace s of
        [] \<Rightarrow> 0
      | c # cs \<Rightarrow> if c = CHR ''-'' then to_int32 (- digitsValue cs 0)
                  else if c = CHR ''+'' then digitsValue cs 0
                  else digitsValue (c # cs) 0)"

definition toInt :: "string \<Rightarrow> int" where
  "toInt s = atol s"

section \<open>Lookup table and sensor cache (tempControl.cpp, readTemperature)\<close>

text \<open>The search for the sensor's index: the first \<^verbatim>\<open>i\<close> with
  \<^verbatim>\<open>tempSensors[i] == sensorPin\<close>, or \<^verbatim>\<open>-1\<close>.\<close>

fun findSensorIndex :: "int list \<Rightarrow> nat \<Rightarrow> int \<Rightarrow> int" where
  "findSensorIndex [] i sensorPin = -1"
| "findSensorIndex (p # ps) i sensorPin =
     (if p = sensorPin then int i else findSensorIndex ps (i + 1) sensorPin)"

text \<open>The \<^verbatim>\<open>while\<close> loop over the table: it stops at the first entry whose ADC value is
  not below the reading, or at the last entry.\<close>

function tableScan :: "int \<Rightarrow> nat \<Rightarrow> nat" where
  "tableScan analogValue i =
     (if fst (tempTable ! i) < analogValue \<and> i < tempTableSize - 1
      then tableScan analogValue (i + 1) else i)"
  by pat_completeness auto
termination
  by (relation "measure (\<lambda>(analogValue, i). tempTableSize - 1 - i)") auto

declare tableScan.simps [simp del]

text \<open>\<^verbatim>\<open>now\<close> is what \<^verbatim>\<open>millis()\<close> returns during the call (the same value for
  the two calls of \<^verbatim>\<open>millis()\<close> in the body) and \<^verbatim>\<open>analogValue\<close> what
  \<^verbatim>\<open>analogRead(sensorPin)\<close> would return. Reading \<^verbatim>\<open>tempTable[i - 1]\<close> with \<^verbatim>\<open>i = 0\<close>
  is a read before the first element of the array: the model returns a fault there.\<close>

definition readTemperature ::
  "millis \<Rightarrow> int \<Rightarrow> state \<Rightarrow> int \<Rightarrow> fault + (real \<times> state)" where
  "readTemperature now analogValue st sensorPin =
     (let sensorIndex = findSensorIndex tempSensors 0 sensorPin in
      if sensorIndex = -1 then Inr (-999, st)
      else
        let idx = nat sensorIndex in
        if now - lastReadTime st ! idx < readInterval
        then Inr (cachedTemperatures st ! idx, st)
        else
          let st1 = st\<lparr>lastReadTime := (lastReadTime st)[idx := now]\<rparr> in
          if analogValue \<le> 0 \<or> analogValue \<ge> 1023
          then Inr (-999, st1\<lparr>cachedTemperatures := (cachedTemperatures st1)[idx := -999]\<rparr>)
          else
            let i = tableScan analogValue 0 in
            if i = 0 then Inl (TableIndexOutOfBounds (int i - 1))
            else
              let adcHigh = float_of_int (fst (tempTable ! i));
                  tempHigh = float_of_int (snd (tempTable ! i));
                  adcLow = float_of_int (fst (tempTable ! (i - 1)));
                  tempLow = float_of_int (snd (tempTable ! (i - 1)));
                  temperature = fadd tempLow
                    (fdiv (fmul (fsub (float_of_int analogValue) adcLow) (fsub tempHigh tempLow))
                       (fsub adcHigh adcLow))
              in Inr (temperature,
                      st1\<lparr>cachedTemperatures := (cachedTemperatures st1)[idx := temperature]\<rparr>))"

text \<open>The reading of segment \<^verbatim>\<open>i\<close> in a pass with sampling \<^verbatim>\<open>smp\<close>:
  \<^verbatim>\<open>readTemperature(tempSensors[i])\<close>.\<close>

definition readSegment :: "sampling \<Rightarrow> nat \<Rightarrow> state \<Rightarrow> fault + (real \<times> state)" where
  "readSegment smp i st = readTemperature (fst (smp i)) (snd (smp i)) st (tempSensors ! i)"

section \<open>Setpoint input (tempControl.cpp, readTargetTemperature)\<close>

definition readTargetTemperature :: "pulse \<Rightarrow> state \<Rightarrow> fault + (real \<times> state)" where
  "readTargetTemperature p st =
     (let pwmValue = to_int16 (pulseIn p) in
      if pwmValue < pwmMinValue st \<or> pwmValue > pwmMaxValue st
      then Inr (-999, prints [Str ''Error: PWM signal out of valid range ('', Num pwmValue,
                              Str '').'', NL] st)
      else
        andThen (to_long (tempMin st)) (\<lambda>out_min.
        andThen (to_long (tempMax st)) (\<lambda>out_max.
        andThen (map_arduino pwmValue (pwmMinValue st) (pwmMaxValue st) out_min out_max)
          (\<lambda>t. Inr (float_of_int t, st)))))"

section \<open>Section aggregator (tempControl.cpp, updateTemperaturePWM)\<close>

record section_sums =
  sumActive :: real
  countActive :: int
  sumAll :: real
  countAll :: int

text \<open>One iteration of the loop over the segments of a section.\<close>

definition sumStep :: "sampling \<Rightarrow> nat \<Rightarrow> section_sums \<times> state \<Rightarrow> fault + (section_sums \<times> state)" where
  "sumStep smp i = (\<lambda>(acc, st).
     andThen (readSegment smp i st) (\<lambda>(temp, st1).
       let acc1 = (if temp \<noteq> -999
                   then acc\<lparr>sumAll := fadd (sumAll acc) temp, countAll := countAll acc + 1\<rparr>
                   else acc);
           acc2 = (if activeSegments st1 ! i \<and> temp \<noteq> -999
                   then acc1\<lparr>sumActive := fadd (sumActive acc1) temp,
                              countActive := countActive acc1 + 1\<rparr>
                   else acc1)
       in Inr (acc2, st1)))"

text \<open>The choice of \<^verbatim>\<open>avgTemp\<close>, with the line each branch prints.\<close>

definition sectionAverage :: "nat \<Rightarrow> section_sums \<Rightarrow> real \<times> serial_item list" where
  "sectionAverage secIndex acc =
     (if countActive acc > 0 then
        (let avgTemp = fdiv (sumActive acc) (float_of_int (countActive acc)) in
         (avgTemp, [Str ''Sec '', Num (int secIndex + 1), Str '' (active): '',
                    Flt (Fin avgTemp), Str degC, NL]))
      else if countAll acc > 0 then
        (let avgTemp = fdiv (sumAll acc) (float_of_int (countAll acc)) in
         (avgTemp, [Str ''Sec '', Num (int secIndex + 1), Str '' (none active): '',
                    Flt (Fin avgTemp), Str degC, NL]))
      else
        (25, [Str ''Sec '', Num (int secIndex + 1),
              Str ('': No valid sensor found. Sending default value (25'' @ degC @ '').''), NL]))"

definition updateTemperaturePWM ::
  "sampling \<Rightarrow> nat \<Rightarrow> nat \<Rightarrow> nat \<Rightarrow> state \<Rightarrow> fault + state" where
  "updateTemperaturePWM smp secIndex start end st =
     andThen
       (forEach [start..<Suc end] (sumStep smp)
          (\<lparr>sumActive = 0, countActive = 0, sumAll = 0, countAll = 0\<rparr>, st))
       (\<lambda>(acc, st1).
          let (avgTemp, report) = sectionAverage secIndex acc;
              st2 = prints report st1
          in
            andThen (to_long avgTemp) (\<lambda>x.
            andThen (to_long (tempMin st2)) (\<lambda>in_min.
            andThen (to_long (tempMax st2)) (\<lambda>in_max.
            andThen (map_arduino x in_min in_max (pwmMaxValue st2) (pwmMinValue st2))
            (\<lambda>m.
               let pwmValue = constrain_int (to_int16 m) (pwmMinValue st2) (pwmMaxValue st2);
                   st3 = st2\<lparr>analogWrites := analogWrites st2 @ [(secIndex, pwmValue)]\<rparr>
               in Inr (prints [Str ''Sec '', Num (int secIndex + 1), Str '' Avg Temp Sent: '',
                               Flt (Fin avgTemp), Str (degC @ '' -> PWM: ''), Num pwmValue, NL]
                         st3))))))"

section \<open>Hysteresis control (tempControl.cpp, controlHeating)\<close>

definition heatSumStep ::
  "sampling \<Rightarrow> nat \<Rightarrow> (real \<times> int) \<times> state \<Rightarrow> fault + ((real \<times> int) \<times> state)" where
  "heatSumStep smp i = (\<lambda>((sum, count), st).
     if activeSegments st ! i
     then andThen (readSegment smp i st) (\<lambda>(temp, st1). Inr ((fadd sum temp, count + 1), st1))
     else Inr ((sum, count), st))"

definition heatSwitchStep :: "bool \<Rightarrow> bool \<Rightarrow> nat \<Rightarrow> state \<Rightarrow> fault + state" where
  "heatSwitchStep heatingOn heatingOff i st =
     Inr (if activeSegments st ! i
          then (if heatingOn then st\<lparr>relayLevel := (relayLevel st)[i := LOW]\<rparr>
                else if heatingOff then st\<lparr>relayLevel := (relayLevel st)[i := HIGH]\<rparr>
                else st)
          else st)"

definition controlHeating ::
  "sampling \<Rightarrow> nat \<Rightarrow> nat \<Rightarrow> nat \<Rightarrow> state \<Rightarrow> fault + state" where
  "controlHeating smp secIndex start end st =
     andThen (forEach [start..<Suc end] (heatSumStep smp) ((0, 0), st))
       (\<lambda>((sum, count), st1).
          let avgTemp = (if count > 0 then fdiv sum (float_of_int count) else 0);
              target = targetTemp st1 ! secIndex;
              heatingOn = (avgTemp < fsub target TEMP_HYSTERESIS);
              heatingOff = (avgTemp > fadd target TEMP_HYSTERESIS)
          in andThen (forEach [start..<Suc end] (heatSwitchStep heatingOn heatingOff) st1)
            (\<lambda>st2. Inr (prints [Str ''Sec '', Num (int secIndex + 1), Str '' Current Temp: '',
                                 Flt (Fin avgTemp), Str (degC @ '' | Setpoint: ''),
                                 Flt (Fin target), Str degC, NL] st2)))"

section \<open>Segment registry\<close>

text \<open>\<^verbatim>\<open>deactivateAllSegments\<close> as part_002 has it: the only copy with a body among the
  split source files. It writes \<^verbatim>\<open>LOW\<close>.\<close>

definition deactivateAllSegments :: "state \<Rightarrow> state" where
  "deactivateAllSegments st =
     fold (\<lambda>i s. s\<lparr>relayLevel := (relayLevel s)[i := LOW],
                    activeSegments := (activeSegments s)[i := False]\<rparr>) [0..<16] st"

text \<open>The loop of \<^verbatim>\<open>printActiveSegments\<close> (Debug.cpp), with its flag \<^verbatim>\<open>found\<close>.\<close>

definition printActiveStep :: "nat \<Rightarrow> bool \<times> state \<Rightarrow> bool \<times> state" where
  "printActiveStep i = (\<lambda>(found, st).
     if activeSegments st ! i
     then (True, prints ((if found then [Str '', ''] else []) @ [Num (int i + 1)]) st)
     else (found, st))"

definition printActiveSegments :: "state \<Rightarrow> state" where
  "printActiveSegments st =
     (let (found, st1) = fold printActiveStep [0..<16] (False, prints [Str ''Active segments: ''] st)
      in if \<not> found then prints [Str ''None'', NL] st1 else prints [NL] st1)"

text \<open>The single-segment switches and \<^verbatim>\<open>activateAllSegments\<close> as Codigo.txt has them
  (their bodies are empty in part_002), and the copy of \<^verbatim>\<open>deactivateAllSegments\<close> of
  that file, which writes \<^verbatim>\<open>HIGH\<close>.\<close>

definition activateSegment :: "int \<Rightarrow> state \<Rightarrow> state" where
  "activateSegment segment st =
     (if segment < 1 \<or> segment > 16 then st
      else
        let index = nat (segment - 1);
            st1 = st\<lparr>relayLevel := (relayLevel st)[index := LOW]\<rparr>;
            st2 = st1\<lparr>activeSegments := (activeSegments st1)[index := True]\<rparr>
        in printActiveSegments (prints [Str ''Segment activated: '', Num segment, NL] st2))"

definition deactivateSegment :: "int \<Rightarrow> state \<Rightarrow> state" where
  "deactivateSegment segment st =
     (if segment < 1 \<or> segment > 16 then st
      else
        let index = nat (segment - 1);
            st1 = st\<lparr>relayLevel := (relayLevel st)[index := HIGH]\<rparr>;
            st2 = st1\<lparr>activeSegments := (activeSegments st1)[index := False]\<rparr>
        in printActiveSegments (prints [Str ''Segment deactivated: '', Num segment, NL] st2))"

definition activateAllSegments :: "state \<Rightarrow> state" where
  "activateAllSegments st =
     printActiveSegments (prints [Str ''All segments activated.'', NL]
       (fold (\<lambda>i s. s\<lparr>relayLevel := (relayLevel s)[i := LOW],
                      activeSegments := (activeSegments s)[i := True]\<rparr>) [0..<16] st))"

definition deactivateAllSegments_Codigo :: "state \<Rightarrow> state" where
  "deactivateAllSegments_Codigo st =
     printActiveSegments (prints [Str ''All segments deactivated.'', NL]
       (fold (\<lambda>i s. s\<lparr>relayLevel := (relayLevel s)[i := HIGH],
                      activeSegments := (activeSegments s)[i := False]\<rparr>) [0..<16] st))"

section \<open>Thermal safety monitor (tempControl.cpp, checkThermalSafety; Safety.cpp)\<close>

text \<open>The loop with its \<^verbatim>\<open>break\<close>: \<^verbatim>\<open>i\<close> is the loop variable.\<close>

function checkThermalSafetyFrom :: "sampling \<Rightarrow> nat \<Rightarrow> state \<Rightarrow> fault + state" where
  "checkThermalSafetyFrom smp i st =
     (if i < 16 then
        andThen (readSegment smp i st) (\<lambda>(temp, st1).
          if temp > MAX_SAFE_TEMPERATURE then
            Inr (prints [Str ''ALERT: Critical temperature detected in segment '',
                         Num (int i + 1), Str '' ('', Flt (Fin temp),
                         Str (degC @ ''). All segments deactivated!''), NL]
                   (deactivateAllSegments (st1\<lparr>thermalSafetyTriggered := True\<rparr>)))
          else checkThermalSafetyFrom smp (i + 1) st1)
      else Inr st)"
  by pat_completeness auto
termination
  by (relation "measure (\<lambda>(smp, i, st). 16 - i)") auto

declare checkThermalSafetyFrom.simps [simp del]

definition checkThermalSafety :: "sampling \<Rightarrow> state \<Rightarrow> fault + state" where
  "checkThermalSafety smp st = checkThermalSafetyFrom smp 0 st"

definition resetThermalSafety :: "state \<Rightarrow> state" where
  "resetThermalSafety st =
     prints [Str ''Thermal safety state reset. System ready for use.'', NL]
       (st\<lparr>thermalSafetyTriggered := False\<rparr>)"

section \<open>PID engine (tempControl.cpp, calculatePID and controlHeatingWithPID)\<close>

definition calculatePID :: "millis \<Rightarrow> nat \<Rightarrow> real \<Rightarrow> real \<Rightarrow> state \<Rightarrow> fl \<times> state" where
  "calculatePID now segmentIndex currentTemp targetT st =
     (let deltaTime = fdiv (float_of_int (int (unat (now - pidLastUpdate st ! segmentIndex)))) 1000;
          st1 = st\<lparr>pidLastUpdate := (pidLastUpdate st)[segmentIndex := now]\<rparr>;
          error = fsub targetT currentTemp;
          proportional = fmul pidKp error;
          st2 = st1\<lparr>pidIntegral := (pidIntegral st1)
                  [segmentIndex := fadd (pidIntegral st1 ! segmentIndex) (fmul error deltaTime)]\<rparr>;
          integral = fmul pidKi (pidIntegral st2 ! segmentIndex);
          derivative = fl_div (fmul pidKd (fsub error (pidLastError st2 ! segmentIndex))) deltaTime;
          st3 = st2\<lparr>pidLastError := (pidLastError st2)[segmentIndex := error]\<rparr>;
          output = fl_add (fadd proportional integral) derivative
      in (constrain_fl output 0 1, st3))"

definition pidStep :: "sampling \<Rightarrow> (nat \<Rightarrow> millis) \<Rightarrow> nat \<Rightarrow> nat \<Rightarrow> state \<Rightarrow> fault + state" where
  "pidStep smp clk secIndex i st =
     (if activeSegments st ! i then
        andThen (readSegment smp i st) (\<lambda>(currentTemp, st1).
          let target = targetTemp st1 ! secIndex;
              (pidOutput, st2) = calculatePID (clk i) i currentTemp target st1;
              st3 = (if fl_greater pidOutput PID_OUTPUT_THRESHOLD
                     then st2\<lparr>relayLevel := (relayLevel st2)[i := LOW]\<rparr>
                     else st2\<lparr>relayLevel := (relayLevel st2)[i := HIGH]\<rparr>)
          in Inr (prints [Str ''Segment '', Num (int i + 1), Str '' | Current Temp: '',
                          Flt (Fin currentTemp), Str (degC @ '' | Setpoint: ''),
                          Flt (Fin target), Str (degC @ '' | PID Output: ''),
                          Flt pidOutput, NL] st3))
      else Inr st)"

definition controlHeatingWithPID ::
  "sampling \<Rightarrow> (nat \<Rightarrow> millis) \<Rightarrow> nat \<Rightarrow> nat \<Rightarrow> nat \<Rightarrow> state \<Rightarrow> fault + state" where
  "controlHeatingWithPID smp clk secIndex start end st =
     forEach [start..<Suc end] (pidStep smp clk secIndex) st"

section \<open>Status and diagnostics (tempControl.cpp, Debug.cpp, part_002)\<close>

text \<open>\<^verbatim>\<open>printSystemStatus\<close> as tempControl.cpp has it (the copy in part_002 prints a
  heading only).\<close>

definition statusSegmentStep :: "sampling \<Rightarrow> nat \<Rightarrow> state \<Rightarrow> fault + state" where
  "statusSegmentStep smp i st =
     (let st1 = prints [Str ''Segment '', Num (int i + 1), Str '': '',
                        Str (if activeSegments st ! i then ''Active'' else ''Inactive''),
                        Str '' | Temp: ''] st
      in andThen (readSegment smp i st1) (\<lambda>(temp, st2).
           Inr (prints [Flt (Fin temp), Str degC, NL] st2)))"

definition setpointStep :: "nat \<Rightarrow> state \<Rightarrow> fault + state" where
  "setpointStep i st =
     Inr (prints [Str ''Sec '', Num (int i + 1), Str '' | Setpoint: '',
                  Flt (Fin (targetTemp st ! i)), Str degC, NL] st)"

definition printSystemStatus :: "sampling \<Rightarrow> state \<Rightarrow> fault + state" where
  "printSystemStatus smp st =
     (let st1 = prints [Str ''=== System Status ==='', NL,
                        Str (''Debug Mode: '' @ (if debugMode st then ''Enabled'' else ''Disabled'')),
                        NL,
                        Str (''Thermal Safety State: '' @
                             (if thermalSafetyTriggered st then ''Triggered'' else ''Normal'')),
                        NL] st
      in andThen (forEach [0..<16] (statusSegmentStep smp) st1) (\<lambda>st2.
         andThen (forEach [0..<4] setpointStep st2) (\<lambda>st3.
           Inr (prints [Str ''====================='', NL] st3))))"

definition debugSegmentStep :: "sampling \<Rightarrow> nat \<Rightarrow> state \<Rightarrow> fault + state" where
  "debugSegmentStep smp i st =
     andThen (readSegment smp i st) (\<lambda>(temp, st1).
       Inr (prints [Str ''Segment '', Num (int i + 1), Str '': '',
                    Str (if activeSegments st1 ! i then ''Active'' else ''Inactive''),
                    Str '' | Temp: '', Flt (Fin temp), Str degC, NL] st1))"

definition debugMonitor :: "sampling \<Rightarrow> state \<Rightarrow> fault + state" where
  "debugMonitor smp st =
     andThen (forEach [0..<16] (debugSegmentStep smp)
                (prints [Str ''=== System Monitoring ==='', NL] st)) (\<lambda>st1.
       andThen (forEach [0..<4] setpointStep st1) (\<lambda>st2.
         Inr (prints [Str ''========================='', NL] st2)))"

definition printActiveSegmentsPeriodically :: "millis \<Rightarrow> state \<Rightarrow> state" where
  "printActiveSegmentsPeriodically now st =
     (if now - lastPrintTime st \<ge> 5000
      then printActiveSegments (st\<lparr>lastPrintTime := now\<rparr>)
      else st)"

definition printHelp :: "state \<Rightarrow> state" where
  "printHelp st = prints
     [Str ''Available commands:'', NL,
      Str ''  ON ALL              - Activate all segments'', NL,
      Str ''  OFF ALL             - Deactivate all segments'', NL,
      Str ''  ON <n>              - Activate segment <n> (1-16)'', NL,
      Str ''  OFF <n>             - Deactivate segment <n> (1-16)'', NL,
      Str ''  SET_PWM_RANGE <minPWM> <maxPWM> <minTemp> <maxTemp> - Configure PWM range'', NL,
      Str ''  DEBUG ON            - Enable debug mode'', NL,
      Str ''  DEBUG OFF           - Disable debug mode'', NL,
      Str ''  STATUS              - Display system status'', NL,
      Str ''  HELP                - Display this list of commands'', NL,
      Str ''  RESET_SAFETY        - Reset thermal safety state'', NL] st"

text \<open>\<^verbatim>\<open>configurePWMRange\<close> as Codigo.txt has it (its body is empty in part_002).\<close>

definition configurePWMRange :: "int \<Rightarrow> int \<Rightarrow> real \<Rightarrow> real \<Rightarrow> state \<Rightarrow> state" where
  "configurePWMRange minPWM maxPWM minTemp maxTemp st =
     prints [Str ''PWM range configured:'', NL,
             Str ''  PWM Min: '', Num minPWM, NL,
             Str ''  PWM Max: '', Num maxPWM, NL,
             Str ''  Temp Min: '', Flt (Fin minTemp), NL,
             Str ''  Temp Max: '', Flt (Fin maxTemp), NL]
       (st\<lparr>pwmMinValue := minPWM, pwmMaxValue := maxPWM, tempMin := minTemp, tempMax := maxTemp\<rparr>)"

section \<open>Command processing (part_002)\<close>

text \<open>The text functions of the Arduino \<^verbatim>\<open>String\<close> class are not part of the
  repository. \<^verbatim>\<open>trim\<close>, \<^verbatim>\<open>startsWith\<close>, \<^verbatim>\<open>substring(n)\<close> and \<^verbatim>\<open>toInt()\<close> are
  written out, and the \<^verbatim>\<open>long\<close> that \<^verbatim>\<open>toInt()\<close> returns is narrowed to the
  \<^verbatim>\<open>int segmentNumber\<close>. The values of the four local variables of the
  \<^verbatim>\<open>SET_PWM_RANGE\<close> branch, which the code computes with index arithmetic on the
  text, are a parameter of the command processors.\<close>

record strlib =
  pwmRangeArgs :: "string \<Rightarrow> int \<times> int \<times> real \<times> real"

definition trim :: "string \<Rightarrow> string" where
  "trim s = rev (dropWhile isspace (rev (dropWhile isspace s)))"

definition startsWith :: "string \<Rightarrow> string \<Rightarrow> bool" where
  "startsWith s p = (take (length p) s = p)"

definition substring :: "nat \<Rightarrow> string \<Rightarrow> string" where
  "substring n s = drop n s"

definition processSerialCommands :: "strlib \<Rightarrow> sampling \<Rightarrow> state \<Rightarrow> fault + state" where
  "processSerialCommands lib smp st =
     (case serialRx st of
        [] \<Rightarrow> Inr st
      | line # rest \<Rightarrow>
          let command = trim line;
              st1 = prints [Str (''Received command: '' @ [CHR 0x22]), Str command,
                            Str [CHR 0x22], NL] (st\<lparr>serialRx := rest\<rparr>)
          in
          if command = ''DEBUG ON'' then
            Inr (prints [Str ''Debug mode enabled.'', NL] (st1\<lparr>debugMode := True\<rparr>))
          else if command = ''DEBUG OFF'' then
            Inr (prints [Str ''Debug mode disabled.'', NL] (st1\<lparr>debugMode := False\<rparr>))
          else if command = ''STATUS'' then printSystemStatus smp st1
          else if startsWith command ''SET_PWM_RANGE'' then
            (let (minPWM, maxPWM, minTemp, maxTemp) = pwmRangeArgs lib command
             in Inr (configurePWMRange minPWM maxPWM minTemp maxTemp st1))
          else if command = ''ON ALL'' then
            (if \<not> thermalSafetyTriggered st1
             then Inr (prints [Str ''All segments activated.'', NL] (activateAllSegments st1))
             else Inr (prints [Str ''Error: System in thermal safety state. Reset before continuing.'',
                               NL] st1))
          else if command = ''OFF ALL'' then
            Inr (prints [Str ''All segments deactivated.'', NL] (deactivateAllSegments st1))
          else if startsWith command ''ON'' then
            (let segmentNumber = to_int16 (toInt (substring 3 command)) in
             if segmentNumber \<ge> 1 \<and> segmentNumber \<le> 16 then
               (if \<not> thermalSafetyTriggered st1
                then Inr (prints [Str ''Segment '', Num segmentNumber, Str '' activated.'', NL]
                            (activateSegment segmentNumber st1))
                else Inr (prints
                       [Str ''Error: System in thermal safety state. Reset before continuing.'',
                        NL] st1))
             else Inr (prints [Str ''Error: Invalid segment number. Use HELP to see commands.'',
                               NL] st1))
          else if startsWith command ''OFF'' then
            (let segmentNumber = to_int16 (toInt (substring 4 command)) in
             if segmentNumber \<ge> 1 \<and> segmentNumber \<le> 16 then
               Inr (prints [Str ''Segment '', Num segmentNumber, Str '' deactivated.'', NL]
                      (deactivateSegment segmentNumber st1))
             else Inr (prints [Str ''Error: Invalid segment number. Use HELP to see commands.'',
                               NL] st1))
          else if command = ''HELP'' then Inr (printHelp st1)
          else if command = ''RESET_SAFETY'' then Inr (resetThermalSafety st1)
          else Inr (prints [Str ''Error: Unrecognized command. Use HELP to see commands.'', NL]
                      st1))"

definition processExternalCommand ::
  "strlib \<Rightarrow> sampling \<Rightarrow> string \<Rightarrow> state \<Rightarrow> fault + state" where
  "processExternalCommand lib smp cmd st =
     (let command = trim cmd in
      if command = ''ON ALL'' then
        (if \<not> thermalSafetyTriggered st
         then Inr (prints [Str ''All segments activated (Duet).'', NL] (activateAllSegments st))
         else Inr (prints [Str ''Error: Thermal safety active (Duet).'', NL] st))
      else if command = ''OFF ALL'' then
        Inr (prints [Str ''All segments deactivated (Duet).'', NL] (deactivateAllSegments st))
      else if startsWith command ''ON'' then
        (let segmentNumber = to_int16 (toInt (substring 3 command)) in
         if segmentNumber \<ge> 1 \<and> segmentNumber \<le> 16 then
           (if \<not> thermalSafetyTriggered st
            then Inr (prints [Str ''Segment '', Num segmentNumber, Str '' activated (Duet).'', NL]
                        (activateSegment segmentNumber st))
            else Inr (prints [Str ''Error: Thermal safety active (Duet).'', NL] st))
         else Inr (prints [Str ''Error: Invalid segment number (Duet).'', NL] st))
      else if startsWith command ''OFF'' then
        (let segmentNumber = to_int16 (toInt (substring 4 command)) in
         if segmentNumber \<ge> 1 \<and> segmentNumber \<le> 16 then
           Inr (prints [Str ''Segment '', Num segmentNumber, Str '' deactivated (Duet).'', NL]
                  (deactivateSegment segmentNumber st))
         else Inr (prints [Str ''Error: Invalid segment number (Duet).'', NL] st))
      else if command = ''RESET_SAFETY'' then
        Inr (prints [Str ''Thermal safety state reset (Duet).'', NL] (resetThermalSafety st))
      else if command = ''DEBUG ON'' then
        Inr (prints [Str ''Debug mode enabled (Duet).'', NL] (st\<lparr>debugMode := True\<rparr>))
      else if command = ''DEBUG OFF'' then
        Inr (prints [Str ''Debug mode disabled (Duet).'', NL] (st\<lparr>debugMode := False\<rparr>))
      else if command = ''HELP'' then Inr (printHelp st)
      else if command = ''STATUS'' then printSystemStatus smp st
      else Inr (prints [Str ''Error: Unrecognized command (Duet): '', Str command, NL] st))"

section \<open>The control tick (part_001, loop and updateAllSections)\<close>

text \<open>What the hardware returns during one tick: a sampling for each pass over the
  segments, and the clock for \<^verbatim>\<open>calculatePID\<close> and
  \<^verbatim>\<open>printActiveSegmentsPeriodically\<close>.\<close>

record tick_env =
  statusSamples :: sampling
  pwmSamples :: sampling
  heatSamples :: sampling
  printClock :: millis
  pidSamples :: sampling
  pidClock :: "nat \<Rightarrow> millis"
  safetySamples :: sampling
  debugSamples :: sampling
  extStatusSamples :: sampling

definition updateSectionStep :: "tick_env \<Rightarrow> nat \<Rightarrow> state \<Rightarrow> fault + state" where
  "updateSectionStep env i st =
     andThen (updateTemperaturePWM (pwmSamples env) i (i * 4) (i * 4 + 3) st)
       (controlHeating (heatSamples env) i (i * 4) (i * 4 + 3))"

definition updateAllSections :: "tick_env \<Rightarrow> state \<Rightarrow> fault + state" where
  "updateAllSections env st = forEach [0..<4] (updateSectionStep env) st"

definition NUM_SEGMENTS :: nat where
  "NUM_SEGMENTS = 16"

definition NUM_SECTIONS :: nat where
  "NUM_SECTIONS = 4"

definition pidSectionStep :: "tick_env \<Rightarrow> nat \<Rightarrow> state \<Rightarrow> fault + state" where
  "pidSectionStep env i st =
     controlHeatingWithPID (pidSamples env) (pidClock env) i
       (i * (NUM_SEGMENTS div NUM_SECTIONS))
       (i * (NUM_SEGMENTS div NUM_SECTIONS) + (NUM_SEGMENTS div NUM_SECTIONS) - 1) st"

text \<open>The line read from \<^verbatim>\<open>Serial1\<close>, when one is waiting.\<close>

definition externalInput :: "strlib \<Rightarrow> tick_env \<Rightarrow> state \<Rightarrow> fault + state" where
  "externalInput lib env st =
     (case serial1Rx st of
        [] \<Rightarrow> Inr st
      | line # rest \<Rightarrow>
          let recebido = trim line;
              st1 = prints [Str ''Recebido da Duet: '', Str recebido, NL] (st\<lparr>serial1Rx := rest\<rparr>)
          in processExternalCommand lib (extStatusSamples env) recebido st1)"

definition loop :: "strlib \<Rightarrow> tick_env \<Rightarrow> state \<Rightarrow> fault + state" where
  "loop lib env st =
     andThen
       (if \<not> thermalSafetyTriggered st then
          andThen (processSerialCommands lib (statusSamples env) st) (\<lambda>st1.
          andThen (updateAllSections env st1) (\<lambda>st2.
          andThen (forEach [0..<NUM_SECTIONS] (pidSectionStep env)
                     (printActiveSegmentsPeriodically (printClock env) st2)) (\<lambda>st3.
          andThen (checkThermalSafety (safetySamples env) st3) (\<lambda>st4.
            if debugMode st4 then debugMonitor (debugSamples env) st4 else Inr st4))))
        else
          Inr (prints [Str ''System in thermal safety state. Use RESET_SAFETY command to reset.'',
                       NL] st))
       (externalInput lib env)"

section \<open>Observations, specification functions and example inputs\<close>

text \<open>The temperature that a pass with sampling \<^verbatim>\<open>smp\<close> reads for segment \<^verbatim>\<open>i\<close>,
  taken from the state at the start of the pass, or \<^verbatim>\<open>None\<close> when the read faults.
  A read for one segment changes only that segment's cache entry and timestamp, so this
  is also what the pass reads when it comes to segment \<^verbatim>\<open>i\<close>.\<close>

definition segmentReading :: "sampling \<Rightarrow> state \<Rightarrow> nat \<Rightarrow> real option" where
  "segmentReading smp st i =
     (case readSegment smp i st of Inl f \<Rightarrow> None | Inr (t, st') \<Rightarrow> Some t)"

text \<open>The state during a scan that has reached segment k agrees with the state at the
  start of the scan on the cache entries of the segments from k on.\<close>

definition agree_from :: "nat \<Rightarrow> state \<Rightarrow> state \<Rightarrow> bool" where
  "agree_from k st st0 = (wf_state st \<and> serialOut st = serialOut st0 \<and>
     (\<forall>j. k \<le> j \<and> j < 16 \<longrightarrow> lastReadTime st ! j = lastReadTime st0 ! j \<and>
        cachedTemperatures st ! j = cachedTemperatures st0 ! j))"

text \<open>The line that \<^verbatim>\<open>checkThermalSafety\<close> prints when it trips at the segment
  with index \<^verbatim>\<open>i\<close>.\<close>

definition alertLine :: "nat \<Rightarrow> real \<Rightarrow> serial_item list" where
  "alertLine i temp = [Str ''ALERT: Critical temperature detected in segment '',
     Num (int i + 1), Str '' ('', Flt (Fin temp),
     Str (degC @ ''). All segments deactivated!''), NL]"

text \<open>Example samplings at 5000 ms: raw 900 reads 10 degrees, raw 450 reads 135
  degrees and raw 500 reads exactly 120 degrees.\<close>

definition hot2 :: sampling where
  "hot2 = (\<lambda>i. (5000, if i = 2 then 450 else 900))"

definition at120 :: sampling where
  "at120 = (\<lambda>i. (5000, if i = 0 then 500 else 900))"

text \<open>The representative temperature in the words of the specification, over the
  readings of a section, each with the segment's active flag. The mean is the one of
  single-precision arithmetic: the readings are added in order and the sum is divided
  by their number, each operation rounded.\<close>

definition validReadings :: "(bool \<times> real) list \<Rightarrow> real list" where
  "validReadings rs = map snd (filter (\<lambda>(a, t). t \<noteq> -999) rs)"

definition activeValidReadings :: "(bool \<times> real) list \<Rightarrow> real list" where
  "activeValidReadings rs = map snd (filter (\<lambda>(a, t). a \<and> t \<noteq> -999) rs)"

definition mean :: "real list \<Rightarrow> real" where
  "mean xs = fdiv (foldl fadd 0 xs) (float_of_int (int (length xs)))"

definition representative_spec :: "(bool \<times> real) list \<Rightarrow> real" where
  "representative_spec rs =
     (if activeValidReadings rs \<noteq> [] then mean (activeValidReadings rs)
      else if validReadings rs \<noteq> [] then mean (validReadings rs)
      else 25)"

text \<open>The sums and counts of the loop of \<^verbatim>\<open>updateTemperaturePWM\<close> after a list of
  readings.\<close>

definition addReadings :: "section_sums \<Rightarrow> (bool \<times> real) list \<Rightarrow> section_sums" where
  "addReadings acc rs =
     \<lparr>sumActive = foldl fadd (sumActive acc) (activeValidReadings rs),
      countActive = countActive acc + int (length (activeValidReadings rs)),
      sumAll = foldl fadd (sumAll acc) (validReadings rs),
      countAll = countAll acc + int (length (validReadings rs))\<rparr>"

text \<open>Examples for section 0: the readings 120, 90, the sentinel (raw 1023) and 30,
  with segment 1 the only active one or with none active; four sentinels; and two
  readings near the cold end of the table, whose mean in single precision is just
  below 5, with both segments active.\<close>

definition section0 :: sampling where
  "section0 = (\<lambda>i. (5000, [500, 600, 1023, 800] ! i))"

definition allInvalid :: sampling where
  "allInvalid = (\<lambda>i. (5000, 1023))"

definition coldEnd :: sampling where
  "coldEnd = (\<lambda>i. (5000, [1005, 918, 1023, 1023] ! i))"

definition oneActive :: state where
  "oneActive = initial_state\<lparr>activeSegments := (activeSegments initial_state)[1 := True]\<rparr>"

definition twoActive :: state where
  "twoActive = initial_state\<lparr>activeSegments :=
     (activeSegments initial_state)[0 := True, 1 := True]\<rparr>"

text \<open>The last line that \<^verbatim>\<open>updateTemperaturePWM\<close> prints: the temperature sent and the
  PWM value written.\<close>

definition sentLine :: "nat \<Rightarrow> real \<Rightarrow> int \<Rightarrow> serial_item list" where
  "sentLine secIndex avgTemp pwmValue =
     [Str ''Sec '', Num (int secIndex + 1), Str '' Avg Temp Sent: '',
      Flt (Fin avgTemp), Str (degC @ '' -> PWM: ''), Num pwmValue, NL]"

text \<open>The echo that \<^verbatim>\<open>processSerialCommands\<close> prints before it acts on a command.\<close>

definition echoLine :: "string \<Rightarrow> serial_item list" where
  "echoLine c = [Str (''Received command: '' @ [CHR 0x22]), Str c, Str [CHR 0x22], NL]"

text \<open>An instance of the parameter for the examples, which use no \<^verbatim>\<open>SET_PWM_RANGE\<close>.\<close>

definition sampleLib :: strlib where
  "sampleLib = \<lparr>pwmRangeArgs = (\<lambda>s. (0, 255, 0, 280))\<rparr>"

text \<open>An example tick: every sensor reads raw 900 at 5000 ms.\<close>

definition quietSampling :: sampling where
  "quietSampling = (\<lambda>i. (5000, 900))"

definition quietEnv :: tick_env where
  "quietEnv = \<lparr>statusSamples = quietSampling, pwmSamples = quietSampling,
     heatSamples = quietSampling, printClock = 5000, pidSamples = quietSampling,
     pidClock = (\<lambda>i. 5000), safetySamples = quietSampling, debugSamples = quietSampling,
     extStatusSamples = quietSampling\<rparr>"

text \<open>The line that \<^verbatim>\<open>loop\<close> prints in a tick that starts with the latch set.\<close>

definition trippedLine :: "serial_item list" where
  "trippedLine = [Str ''System in thermal safety state. Use RESET_SAFETY command to reset.'', NL]"

text \<open>The interpolation between two table entries as the specification gives it, in
  exact arithmetic.\<close>

definition interpolation_spec :: "int \<Rightarrow> int \<times> int \<Rightarrow> int \<times> int \<Rightarrow> real" where
  "interpolation_spec raw low high =
     real_of_int (snd low) + (real_of_int raw - real_of_int (fst low)) *
       (real_of_int (snd high) - real_of_int (snd low)) /
       (real_of_int (fst high) - real_of_int (fst low))"

text \<open>The line that \<^verbatim>\<open>readTargetTemperature\<close> prints when the pulse width 0 is outside
  the configured range.\<close>

definition timeoutErrorLine :: "serial_item list" where
  "timeoutErrorLine = [Str ''Error: PWM signal out of valid range ('', Num 0, Str '').'', NL]"

section \<open>Verification: rounding to single precision\<close>

lemma scaleDown_props:
  "0 < y \<Longrightarrow>
   (case scaleDown y e of (y', e') \<Rightarrow>
      y' * 2 powi e' = y * 2 powi e \<and> y' < 16777216 \<and> 0 < y' \<and>
      (8388608 \<le> y \<longrightarrow> 8388608 \<le> y'))"
proof (induction y e rule: scaleDown.induct)
  case (1 y e)
  show ?case
  proof (cases "16777216 \<le> y")
    case True
    then have s: "scaleDown y e = scaleDown (y / 2) (e + 1)"
      by (subst scaleDown.simps) simp
    from "1.IH" [OF True] "1.prems" have
      "case scaleDown (y / 2) (e + 1) of (y', e') \<Rightarrow>
         y' * 2 powi e' = y / 2 * 2 powi (e + 1) \<and> y' < 16777216 \<and> 0 < y' \<and>
         (8388608 \<le> y / 2 \<longrightarrow> 8388608 \<le> y')" by simp
    with True show ?thesis unfolding s
      by (auto simp: power_int_add split: prod.splits)
  next
    case False
    then have "scaleDown y e = (y, e)" by (subst scaleDown.simps) auto
    with False "1.prems" show ?thesis by simp
  qed
qed

lemma scaleUp_props:
  "0 < y \<Longrightarrow>
   (case scaleUp y e of (y', e') \<Rightarrow>
      y' * 2 powi e' = y * 2 powi e \<and> 8388608 \<le> y' \<and>
      (y < 16777216 \<longrightarrow> y' < 16777216))"
proof (induction y e rule: scaleUp.induct)
  case (1 y e)
  show ?case
  proof (cases "0 < y \<and> y < 8388608")
    case True
    then have s: "scaleUp y e = scaleUp (2 * y) (e - 1)"
      by (subst scaleUp.simps) simp
    from "1.IH" [OF True] "1.prems" have
      "case scaleUp (2 * y) (e - 1) of (y', e') \<Rightarrow>
         y' * 2 powi e' = 2 * y * 2 powi (e - 1) \<and> 8388608 \<le> y' \<and>
         (2 * y < 16777216 \<longrightarrow> y' < 16777216)" by simp
    with True show ?thesis unfolding s
      by (auto simp: power_int_diff split: prod.splits)
  next
    case False
    then have "scaleUp y e = (y, e)" by (subst scaleUp.simps) auto
    with False "1.prems" show ?thesis by simp
  qed
qed

text \<open>The normal form of a positive number: a mantissa in [2^23, 2^24) and an exponent.\<close>

lemma f32_normal:
  assumes "0 < x"
  obtains y e where "f32 x = of_int (round_even y) * 2 powi e" and "x = y * 2 powi e"
    and "8388608 \<le> y" and "y < 16777216"
proof -
  obtain y1 e1 where d: "scaleDown \<bar>x\<bar> 0 = (y1, e1)" by (cases "scaleDown \<bar>x\<bar> 0")
  obtain y e where u: "scaleUp y1 e1 = (y, e)" by (cases "scaleUp y1 e1")
  from scaleDown_props [of "\<bar>x\<bar>" 0] d assms have
    p1: "y1 * 2 powi e1 = x" "y1 < 16777216" "0 < y1" by simp_all
  from scaleUp_props [OF p1(3), of e1] u p1 have
    p2: "y * 2 powi e = x" "8388608 \<le> y" "y < 16777216" by simp_all
  have "f32 x = of_int (round_even y) * 2 powi e"
    using assms d u by (simp add: f32_def)
  with p2 show thesis by (intro that [of y e]) simp_all
qed

lemma round_even_le: "y \<le> of_int n \<Longrightarrow> round_even y \<le> n"
proof -
  assume a: "y \<le> of_int n"
  then have f: "\<lfloor>y\<rfloor> \<le> n" by (simp add: floor_le_iff)
  show ?thesis
  proof (cases "\<lfloor>y\<rfloor> = n")
    case True
    with a have "y - of_int \<lfloor>y\<rfloor> \<le> 0" by simp
    then show ?thesis using True by (simp add: round_even_def Let_def)
  next
    case False
    with f have "\<lfloor>y\<rfloor> + 1 \<le> n" by simp
    then show ?thesis by (simp add: round_even_def Let_def)
  qed
qed

lemma round_even_ge: "of_int n \<le> y \<Longrightarrow> n \<le> round_even y"
proof -
  assume "of_int n \<le> y"
  then have "n \<le> \<lfloor>y\<rfloor>" by (simp add: le_floor_iff)
  then show ?thesis by (simp add: round_even_def Let_def)
qed

lemma f32_minus: "f32 (- x) = - f32 x"
  by (simp add: f32_def Let_def split: prod.splits)

lemma f32_pos: "0 < x \<Longrightarrow> 0 < f32 x"
proof -
  assume a: "0 < x"
  from f32_normal [OF a] obtain y e where
    f: "f32 x = of_int (round_even y) * 2 powi e" and y: "8388608 \<le> y" by blast
  have "(8388608::int) \<le> round_even y" using y by (intro round_even_ge) simp
  then have "0 < real_of_int (round_even y)" by simp
  then show ?thesis unfolding f by (simp add: zero_less_mult_iff)
qed

lemma f32_neg: "x < 0 \<Longrightarrow> f32 x < 0"
  using f32_pos [of "- x"] by (simp add: f32_minus)

lemma f32_zero [simp]: "f32 0 = 0"
  by (simp add: f32_def)

text \<open>A bound that is itself a single-precision number survives rounding.\<close>

lemma f32_le_pos:
  assumes "0 < x" and "x \<le> of_int k * 2 powi j" and "k < 16777216"
  shows "f32 x \<le> of_int k * 2 powi j"
proof -
  from f32_normal [OF assms(1)] obtain y e where
    f: "f32 x = of_int (round_even y) * 2 powi e" and x: "x = y * 2 powi e"
    and y: "8388608 \<le> y" "y < 16777216" by blast
  have kpos: "0 < k"
  proof (rule ccontr)
    assume "\<not> 0 < k"
    then have "real_of_int k * 2 powi j \<le> 0" by (simp add: mult_nonpos_nonneg)
    with assms(1,2) show False by simp
  qed
  have yN: "y \<le> of_int k * 2 powi (j - e)"
  proof -
    have "y = x * 2 powi (- e)" unfolding x by (simp add: power_int_minus)
    also have "\<dots> \<le> (of_int k * 2 powi j) * 2 powi (- e)"
      using assms(2) by (intro mult_right_mono) simp_all
    also have "\<dots> = of_int k * 2 powi (j - e)" by (simp add: power_int_diff power_int_minus field_simps)
    finally show ?thesis .
  qed
  show ?thesis
  proof (cases "e \<le> j")
    case True
    then have p: "(2::real) powi (j - e) = 2 ^ nat (j - e)" by (simp add: power_int_def)
    have "y \<le> of_int (k * 2 ^ nat (j - e))" using yN p by simp
    then have "round_even y \<le> k * 2 ^ nat (j - e)" by (rule round_even_le)
    then have "real_of_int (round_even y) \<le> of_int k * 2 powi (j - e)"
      unfolding p by (metis of_int_le_iff of_int_mult of_int_numeral of_int_power)
    then have "real_of_int (round_even y) * 2 powi e \<le> (of_int k * 2 powi (j - e)) * 2 powi e"
      by (intro mult_right_mono) simp_all
    also have "\<dots> = of_int k * 2 powi j" by (simp add: power_int_diff)
    finally show ?thesis unfolding f .
  next
    case False
    then have "j - e \<le> -1" by simp
    then have "(2::real) powi (j - e) \<le> 2 powi (-1)" by (intro power_int_increasing) simp_all
    then have "(2::real) powi (j - e) \<le> 1 / 2" by (simp add: power_int_minus)
    then have "of_int k * 2 powi (j - e) \<le> of_int k * (1 / 2 :: real)"
      using kpos by (intro mult_left_mono) simp_all
    also have "\<dots> < 8388608" using assms(3) by simp
    finally show ?thesis using yN y by simp
  qed
qed

lemma f32_ge_pos:
  assumes "0 < x" and "of_int k * 2 powi j \<le> x" and "k < 16777216"
  shows "of_int k * 2 powi j \<le> f32 x"
proof -
  from f32_normal [OF assms(1)] obtain y e where
    f: "f32 x = of_int (round_even y) * 2 powi e" and x: "x = y * 2 powi e"
    and y: "8388608 \<le> y" "y < 16777216" by blast
  have Ny: "of_int k * 2 powi (j - e) \<le> y"
  proof -
    have "real_of_int k * 2 powi (j - e) = (real_of_int k * 2 powi j) * 2 powi (- e)"
      by (simp add: power_int_diff power_int_minus field_simps)
    also have "\<dots> \<le> x * 2 powi (- e)"
      using assms(2) by (intro mult_right_mono) simp_all
    also have "\<dots> = y" unfolding x by (simp add: power_int_minus)
    finally show ?thesis .
  qed
  have r: "(8388608::int) \<le> round_even y" using y by (intro round_even_ge) simp
  have "real_of_int k * 2 powi (j - e) \<le> real_of_int (round_even y)"
  proof (cases "e \<le> j")
    case True
    then have p: "(2::real) powi (j - e) = 2 ^ nat (j - e)" by (simp add: power_int_def)
    have "of_int (k * 2 ^ nat (j - e)) \<le> y" using Ny p by simp
    then have "k * 2 ^ nat (j - e) \<le> round_even y" by (rule round_even_ge)
    then show ?thesis
      unfolding p by (metis of_int_le_iff of_int_mult of_int_numeral of_int_power)
  next
    case False
    show ?thesis
    proof (cases "0 < k")
      case True
      from False have "j - e \<le> -1" by simp
      then have "(2::real) powi (j - e) \<le> 2 powi (-1)" by (intro power_int_increasing) simp_all
      then have "(2::real) powi (j - e) \<le> 1 / 2" by (simp add: power_int_minus)
      then have "of_int k * 2 powi (j - e) \<le> of_int k * (1 / 2 :: real)"
        using True by (intro mult_left_mono) simp_all
      also have "\<dots> < 8388608" using assms(3) by simp
      also have "\<dots> \<le> real_of_int (round_even y)" using r by simp
      finally show ?thesis by simp
    next
      case False
      then have "real_of_int k * 2 powi (j - e) \<le> 0" by (simp add: mult_nonpos_nonneg)
      also have "\<dots> \<le> real_of_int (round_even y)" using r by simp
      finally show ?thesis .
    qed
  qed
  then have "real_of_int k * 2 powi (j - e) * 2 powi e \<le> real_of_int (round_even y) * 2 powi e"
    by (intro mult_right_mono) simp_all
  moreover have "real_of_int k * 2 powi (j - e) * 2 powi e = of_int k * 2 powi j"
    by (simp add: power_int_diff)
  ultimately show ?thesis unfolding f by simp
qed

lemma f32_le:
  assumes "x \<le> of_int k * 2 powi j" and "\<bar>k\<bar> < 16777216"
  shows "f32 x \<le> of_int k * 2 powi j"
proof -
  consider "x = 0" | "0 < x" | "x < 0" by linarith
  then show ?thesis
  proof cases
    case 1
    with assms(1) show ?thesis by simp
  next
    case 2
    from assms(2) have "k < 16777216" by simp
    with f32_le_pos [OF 2 assms(1)] show ?thesis .
  next
    case 3
    show ?thesis
    proof (cases "0 \<le> real_of_int k * 2 powi j")
      case True
      with f32_neg [OF 3] show ?thesis by simp
    next
      case False
      have "real_of_int (- k) * 2 powi j \<le> - x" using assms(1) by simp
      moreover have "0 < - x" using 3 by simp
      moreover have "- k < 16777216" using assms(2) by simp
      ultimately have "real_of_int (- k) * 2 powi j \<le> f32 (- x)" by (intro f32_ge_pos)
      then show ?thesis by (simp add: f32_minus)
    qed
  qed
qed

lemma f32_ge:
  assumes "of_int k * 2 powi j \<le> x" and "\<bar>k\<bar> < 16777216"
  shows "of_int k * 2 powi j \<le> f32 x"
proof -
  have "- x \<le> real_of_int (- k) * 2 powi j" using assms(1) by simp
  moreover have "\<bar>- k\<bar> < 16777216" using assms(2) by simp
  ultimately have "f32 (- x) \<le> real_of_int (- k) * 2 powi j" by (rule f32_le)
  then show ?thesis by (simp add: f32_minus)
qed

lemma f32_id:
  assumes "\<bar>k\<bar> < 16777216"
  shows "f32 (of_int k * 2 powi j) = of_int k * 2 powi j"
  using f32_le [OF order_refl assms, of j] f32_ge [OF order_refl assms, of j] by simp

lemma f32_of_int: "\<bar>n\<bar> < 16777216 \<Longrightarrow> f32 (of_int n) = of_int n"
  using f32_id [of n 0] by simp

lemma f32_le_int: "x \<le> of_int n \<Longrightarrow> \<bar>n\<bar> < 16777216 \<Longrightarrow> f32 x \<le> of_int n"
  using f32_le [of x n 0] by simp

lemma f32_ge_int: "of_int n \<le> x \<Longrightarrow> \<bar>n\<bar> < 16777216 \<Longrightarrow> of_int n \<le> f32 x"
  using f32_ge [of n 0 x] by simp

text \<open>Bounds in sixteenths.\<close>

lemma f32_le_16: "x \<le> of_int n / 16 \<Longrightarrow> \<bar>n\<bar> < 16777216 \<Longrightarrow> f32 x \<le> of_int n / 16"
  using f32_le [of x n "-4"] by (simp add: power_int_minus)

lemma f32_ge_16: "of_int n / 16 \<le> x \<Longrightarrow> \<bar>n\<bar> < 16777216 \<Longrightarrow> of_int n / 16 \<le> f32 x"
  using f32_ge [of n "-4" x] by (simp add: power_int_minus)

text \<open>The relative error of one rounding is at most 2^-24.\<close>

lemma round_even_err: "\<bar>real_of_int (round_even y) - y\<bar> \<le> 1 / 2"
proof -
  have "real_of_int \<lfloor>y\<rfloor> \<le> y" "y < real_of_int \<lfloor>y\<rfloor> + 1" by linarith+
  then show ?thesis by (auto simp: round_even_def Let_def)
qed

lemma f32_err_pos:
  assumes "0 < x"
  shows "\<bar>f32 x - x\<bar> \<le> x / 16777216"
proof -
  from f32_normal [OF assms] obtain y e where
    f: "f32 x = of_int (round_even y) * 2 powi e" and x: "x = y * 2 powi e"
    and y: "8388608 \<le> y" "y < 16777216" by blast
  have p: "(0::real) < 2 powi e" by simp
  have "f32 x - x = real_of_int (round_even y) * 2 powi e - y * 2 powi e"
    using f x by simp
  then have "f32 x - x = (real_of_int (round_even y) - y) * 2 powi e"
    by (simp add: algebra_simps)
  then have "\<bar>f32 x - x\<bar> = \<bar>real_of_int (round_even y) - y\<bar> * 2 powi e"
    by (simp add: abs_mult)
  also have "\<dots> \<le> 1 / 2 * 2 powi e"
    using round_even_err [of y] by (intro mult_right_mono) simp_all
  also have "\<dots> \<le> (y / 16777216) * 2 powi e"
    using y by (intro mult_right_mono) simp_all
  also have "\<dots> = x / 16777216" unfolding x by simp
  finally show ?thesis .
qed

lemma f32_err: "\<bar>f32 x - x\<bar> \<le> \<bar>x\<bar> / 16777216"
proof -
  consider "x = 0" | "0 < x" | "x < 0" by linarith
  then show ?thesis
  proof cases
    case 1
    then show ?thesis by simp
  next
    case 2
    with f32_err_pos [OF 2] show ?thesis by simp
  next
    case 3
    then have "0 < - x" by simp
    from f32_err_pos [OF this] 3 show ?thesis by (simp add: f32_minus)
  qed
qed

text \<open>The equations that evaluate a rounding at a given number.\<close>

lemmas f32_eval = f32_def scaleDown.simps scaleUp.simps round_even_def Let_def

text \<open>Small integers are single-precision numbers.\<close>

lemma f32_numeral: "(numeral n :: int) < 16777216 \<Longrightarrow> f32 (numeral n) = numeral n"
  using f32_of_int [of "numeral n"] by simp

lemma f32_neg_numeral: "(numeral n :: int) < 16777216 \<Longrightarrow> f32 (- numeral n) = - numeral n"
  using f32_of_int [of "- numeral n"] by simp

lemma f32_one [simp]: "f32 1 = 1"
  using f32_of_int [of 1] by simp

lemmas float_ops = float_of_int_def fadd_def fsub_def fmul_def fdiv_def f32_numeral f32_neg_numeral

text \<open>For evaluation: a small integer needs no scaling.\<close>

lemma f32_code [code]:
  "f32 x =
     (if \<bar>x\<bar> < 16777216 \<and> real_of_int \<lfloor>x\<rfloor> = x then x
      else if x = 0 then 0
      else
        let (y1, e1) = scaleDown \<bar>x\<bar> 0;
            (y, e) = scaleUp y1 e1
        in sgn x * of_int (round_even y) * 2 powi e)"
proof (cases "\<bar>x\<bar> < 16777216 \<and> real_of_int \<lfloor>x\<rfloor> = x")
  case True
  then have "\<bar>\<lfloor>x\<rfloor>\<bar> < 16777216" by linarith
  from f32_of_int [OF this] True show ?thesis by simp
next
  case False
  then show ?thesis unfolding f32_def by (simp only: if_False)
qed

section \<open>Verification: lookup table and sensor cache\<close>

lemma float_of_int_small: "\<bar>n\<bar> < 16777216 \<Longrightarrow> float_of_int n = of_int n"
  by (simp add: float_of_int_def f32_of_int)

lemma fsub_int: "\<bar>a - b\<bar> < 16777216 \<Longrightarrow> fsub (of_int a) (of_int b) = of_int (a - b)"
  using f32_of_int [of "a - b"] by (simp add: fsub_def)

lemma fmul_int: "\<bar>a * b\<bar> < 16777216 \<Longrightarrow> fmul (of_int a) (of_int b) = of_int (a * b)"
  using f32_of_int [of "a * b"] by (simp add: fmul_def)

lemma findSensorIndex_distinct:
  "distinct ps \<Longrightarrow> i < length ps \<Longrightarrow> findSensorIndex ps k (ps ! i) = int (k + i)"
proof (induction ps arbitrary: i k)
  case Nil
  then show ?case by simp
next
  case (Cons p ps)
  show ?case
  proof (cases i)
    case 0
    then show ?thesis by simp
  next
    case (Suc j)
    with Cons.prems have "ps ! j \<noteq> p" by auto
    with Cons Suc show ?thesis by simp
  qed
qed

lemma findSensorIndex_tempSensors:
  "i < 16 \<Longrightarrow> findSensorIndex tempSensors 0 (tempSensors ! i) = int i"
  using findSensorIndex_distinct [of tempSensors i 0] by (simp add: tempSensors_def)

lemma readSegment_unfold:
  assumes "i < 16"
  shows "readSegment smp i st =
     (if fst (smp i) - lastReadTime st ! i < readInterval
        then Inr (cachedTemperatures st ! i, st)
        else
          let st1 = st\<lparr>lastReadTime := (lastReadTime st)[i := fst (smp i)]\<rparr> in
          if snd (smp i) \<le> 0 \<or> snd (smp i) \<ge> 1023
          then Inr (-999, st1\<lparr>cachedTemperatures := (cachedTemperatures st1)[i := -999]\<rparr>)
          else
            let k = tableScan (snd (smp i)) 0 in
            if k = 0 then Inl (TableIndexOutOfBounds (int k - 1))
            else
              let adcHigh = float_of_int (fst (tempTable ! k));
                  tempHigh = float_of_int (snd (tempTable ! k));
                  adcLow = float_of_int (fst (tempTable ! (k - 1)));
                  tempLow = float_of_int (snd (tempTable ! (k - 1)));
                  temperature = fadd tempLow
                    (fdiv (fmul (fsub (float_of_int (snd (smp i))) adcLow) (fsub tempHigh tempLow))
                       (fsub adcHigh adcLow))
              in Inr (temperature,
                      st1\<lparr>cachedTemperatures := (cachedTemperatures st1)[i := temperature]\<rparr>))"
  using assms
  by (simp add: readSegment_def readTemperature_def findSensorIndex_tempSensors Let_def)

lemma tableScan_between:
  assumes "Suc j < length tempTable"
    and "fst (tempTable ! j) < a" and "a \<le> fst (tempTable ! Suc j)"
  shows "tableScan a 0 = Suc j"
proof -
  from assms(1) have "j < 9" by (simp add: tempTable_def)
  then consider "j = 0" | "j = 1" | "j = 2" | "j = 3" | "j = 4" | "j = 5" | "j = 6"
    | "j = 7" | "j = 8" by linarith
  then show ?thesis
    using assms(2,3)
    by cases (simp_all add: tableScan.simps tempTable_def tempTableSize_def)
qed

lemma tableScan_first: "a \<le> 1 \<Longrightarrow> tableScan a 0 = 0"
  by (simp add: tableScan.simps tempTable_def)

lemma tableScan_ge: "i \<le> tableScan a i"
proof (induction a i rule: tableScan.induct)
  case (1 a i)
  show ?case
  proof (cases "fst (tempTable ! i) < a \<and> i < tempTableSize - 1")
    case True
    then have "tableScan a i = tableScan a (i + 1)" by (subst tableScan.simps) auto
    with 1 True show ?thesis by simp
  next
    case False
    then have "tableScan a i = i" by (subst tableScan.simps) auto
    then show ?thesis by simp
  qed
qed

lemma tableScan_pos: "1 < a \<Longrightarrow> 0 < tableScan a 0"
  using tableScan_ge [of 1 a]
  by (subst tableScan.simps) (simp add: tempTable_def tempTableSize_def)

text \<open>Every other accepted reading stays inside the table.\<close>

lemma readTemperature_in_bounds:
  assumes "i < 16" and "1 < a" and "a < 1023"
  shows "\<exists>t st'. readTemperature now a st (tempSensors ! i) = Inr (t, st')"
proof -
  from tableScan_pos [OF assms(2)] have "tableScan a 0 \<noteq> 0" by simp
  then show ?thesis
    using assms readSegment_unfold [OF assms(1), of "\<lambda>i. (now, a)" st]
    by (auto simp: readSegment_def Let_def)
qed

text \<open>C4 (defect of the code). The claim is that no accepted reading makes the lookup
  index outside the table, and that the element before the first entry is never
  accessed. The reading 1 is accepted (it is strictly between 0 and 1023), the scan
  stops at index 0, and the interpolation reads \<^verbatim>\<open>tempTable[-1]\<close>.\<close>

theorem readTemperature_reads_before_table:
  "readTemperature 5000 1 initial_state (tempSensors ! 0) = Inl (TableIndexOutOfBounds (-1))"
  using readSegment_unfold [of 0 "\<lambda>i. (5000, 1)" initial_state]
  by (simp add: readSegment_def tableScan_first initial_state_def readInterval_def)

text \<open>C10. When a fresh sample is out of range (\<^verbatim>\<open>raw \<le> 0\<close> or \<^verbatim>\<open>raw \<ge> 1023\<close>), the
  timestamp of the segment is advanced and the sentinel -999 is stored in the cache;
  every later call for that segment less than \<^verbatim>\<open>readInterval\<close> after it returns -999
  from the cache and leaves the state as it is, whatever the analog input then is.\<close>

theorem readTemperature_error_poisons_window:
  assumes "wf_state st" and "i < 16"
    and "\<not> now - lastReadTime st ! i < readInterval"
    and "a \<le> 0 \<or> a \<ge> 1023"
  shows "\<exists>st1. readTemperature now a st (tempSensors ! i) = Inr (-999, st1) \<and>
           lastReadTime st1 ! i = now \<and> cachedTemperatures st1 ! i = -999 \<and>
           (\<forall>now' a'. now' - now < readInterval \<longrightarrow>
              readTemperature now' a' st1 (tempSensors ! i) = Inr (-999, st1))"
proof -
  define st1 where "st1 = st\<lparr>lastReadTime := (lastReadTime st)[i := now],
                              cachedTemperatures := (cachedTemperatures st)[i := -999]\<rparr>"
  have r: "readTemperature now a st (tempSensors ! i) = Inr (-999, st1)"
    using readSegment_unfold [OF assms(2), of "\<lambda>i. (now, a)" st] assms(3,4)
    by (auto simp: readSegment_def st1_def Let_def)
  have l: "lastReadTime st1 ! i = now" and c: "cachedTemperatures st1 ! i = -999"
    using assms(1,2) by (simp_all add: st1_def wf_state_def)
  have "readTemperature now' a' st1 (tempSensors ! i) = Inr (-999, st1)"
    if "now' - now < readInterval" for now' a'
    using readSegment_unfold [OF assms(2), of "\<lambda>i. (now', a')" st1] that l c
    by (simp add: readSegment_def)
  with r l c show ?thesis by blast
qed

theorem readTemperature_error_poisons_window_witness:
  "\<exists>st1. readTemperature 5000 1023 initial_state (tempSensors ! 3) = Inr (-999, st1) \<and>
      lastReadTime st1 ! 3 = 5000 \<and> cachedTemperatures st1 ! 3 = -999 \<and>
      readTemperature 5999 500 st1 (tempSensors ! 3) = Inr (-999, st1)"
proof -
  have w: "wf_state initial_state" by (simp add: wf_state_def initial_state_def)
  have f: "\<not> (5000::millis) - lastReadTime initial_state ! 3 < readInterval"
    by (simp add: initial_state_def readInterval_def)
  have n: "(5999::millis) - 5000 < readInterval" by (simp add: readInterval_def)
  from readTemperature_error_poisons_window [OF w _ f, of 1023] n show ?thesis by fastforce
qed

text \<open>Adjacent table entries: ADC values rise, temperatures fall by at most 50 degrees
  and by at least a sixteenth of a degree for each ADC step.\<close>

lemma tempTable_adjacent:
  assumes "Suc j < length tempTable"
    and "tempTable ! j = (alo, tlo)" and "tempTable ! Suc j = (ahi, thi)"
  shows "0 < alo \<and> alo < ahi \<and> ahi \<le> 1023 \<and> 0 \<le> thi \<and> thi < tlo \<and> tlo \<le> 300 \<and>
    tlo - thi \<le> 50 \<and> ahi - alo \<le> 16 * (tlo - thi)"
proof -
  from assms(1) have "j < 9" by (simp add: tempTable_def)
  then consider "j = 0" | "j = 1" | "j = 2" | "j = 3" | "j = 4" | "j = 5" | "j = 6"
    | "j = 7" | "j = 8" by linarith
  then show ?thesis using assms(2,3)
    by cases (auto simp: tempTable_def)
qed

text \<open>The interpolation in single precision. The differences and the product are small
  integers and exact; the quotient and the sum are rounded.\<close>

lemma interp_f32:
  fixes alo ahi tlo thi a :: int
  assumes t: "0 < alo \<and> alo < ahi \<and> ahi \<le> 1023 \<and> 0 \<le> thi \<and> thi < tlo \<and> tlo \<le> 300 \<and>
    tlo - thi \<le> 50 \<and> ahi - alo \<le> 16 * (tlo - thi)"
    and a: "alo < a" "a \<le> ahi"
  defines "x \<equiv> real_of_int ((a - alo) * (thi - tlo)) / real_of_int (ahi - alo)"
  defines "r \<equiv> fadd (float_of_int tlo)
      (fdiv (fmul (fsub (float_of_int a) (float_of_int alo))
               (fsub (float_of_int thi) (float_of_int tlo)))
         (fsub (float_of_int ahi) (float_of_int alo)))"
  shows "r = f32 (real_of_int tlo + f32 x)"
    and "real_of_int thi \<le> r" and "r < real_of_int tlo"
    and "a < ahi \<Longrightarrow> real_of_int thi < r" and "a = ahi \<Longrightarrow> r = real_of_int thi"
    and "\<bar>r - (real_of_int tlo + x)\<bar> < 1 / 32768"
proof -
  have d: "0 < real_of_int (ahi - alo)" using t by simp
  have small: "\<bar>a\<bar> < 16777216" "\<bar>alo\<bar> < 16777216" "\<bar>ahi\<bar> < 16777216" "\<bar>tlo\<bar> < 16777216"
    "\<bar>thi\<bar> < 16777216" "\<bar>a - alo\<bar> < 16777216" "\<bar>thi - tlo\<bar> < 16777216"
    "\<bar>ahi - alo\<bar> < 16777216"
    using t a by simp_all
  have "\<bar>a - alo\<bar> \<le> 1023" "\<bar>thi - tlo\<bar> \<le> 50" using t a by simp_all
  then have "\<bar>a - alo\<bar> * \<bar>thi - tlo\<bar> \<le> 1023 * 50" by (intro mult_mono) simp_all
  then have prod: "\<bar>(a - alo) * (thi - tlo)\<bar> < 16777216" by (simp add: abs_mult)
  show req: "r = f32 (real_of_int tlo + f32 x)"
    unfolding r_def x_def
    by (simp only: float_of_int_small small fsub_int fmul_int prod fadd_def fdiv_def)
  have xeq: "x = real_of_int (a - alo) / real_of_int (ahi - alo) * real_of_int (thi - tlo)"
    by (simp add: x_def)
  define c where "c = real_of_int (a - alo) / real_of_int (ahi - alo)"
  have c0: "0 < c" using a d by (simp add: c_def)
  have c1: "c \<le> 1" using a d by (simp add: c_def)
  have cl: "1 / real_of_int (ahi - alo) \<le> c"
    using a d by (simp add: c_def divide_right_mono)
  have neg: "real_of_int (thi - tlo) < 0" using t by simp
  have xc: "x = c * real_of_int (thi - tlo)" by (simp add: xeq c_def)
  have x_ge: "real_of_int (thi - tlo) \<le> x"
    unfolding xc using c1 neg by (metis mult_1 mult_right_mono_neg less_imp_le)
  have slope: "1 / 16 \<le> real_of_int (tlo - thi) / real_of_int (ahi - alo)"
  proof -
    have "real_of_int (ahi - alo) \<le> real_of_int (16 * (tlo - thi))" using t by (simp only: of_int_le_iff)
    then show ?thesis using d by (simp add: field_simps)
  qed
  have x_le: "x \<le> - 1 / 16"
  proof -
    have "x = - (c * real_of_int (tlo - thi))" by (simp add: xc algebra_simps)
    moreover have "1 / real_of_int (ahi - alo) * real_of_int (tlo - thi) \<le> c * real_of_int (tlo - thi)"
      using cl t by (intro mult_right_mono) simp_all
    then have "real_of_int (tlo - thi) / real_of_int (ahi - alo) \<le> c * real_of_int (tlo - thi)"
      by simp
    ultimately show ?thesis using slope by linarith
  qed
  have q_ge: "real_of_int (thi - tlo) \<le> f32 x"
    using x_ge small by (intro f32_ge_int) simp_all
  have q_le: "f32 x \<le> real_of_int (- 1) / 16"
    using x_le by (intro f32_le_16) simp_all
  from q_ge have "real_of_int thi \<le> real_of_int tlo + f32 x" by simp
  then show lo: "real_of_int thi \<le> r"
    unfolding req using small by (intro f32_ge_int) simp_all
  have "real_of_int tlo + f32 x \<le> real_of_int (16 * tlo - 1) / 16" using q_le by simp
  then have "r \<le> real_of_int (16 * tlo - 1) / 16"
    unfolding req using t by (intro f32_le_16) simp_all
  then show "r < real_of_int tlo" by simp
  show "real_of_int thi < r" if "a < ahi"
  proof -
    have "real_of_int (a - alo) \<le> real_of_int (ahi - alo) - 1" using that by simp
    then have "c \<le> (real_of_int (ahi - alo) - 1) / real_of_int (ahi - alo)"
      unfolding c_def using d by (intro divide_right_mono) simp_all
    also have "\<dots> = 1 - 1 / real_of_int (ahi - alo)"
      using d by (simp only: diff_divide_distrib) simp
    finally have "c \<le> 1 - 1 / real_of_int (ahi - alo)" .
    then have "(1 - 1 / real_of_int (ahi - alo)) * real_of_int (thi - tlo) \<le> c * real_of_int (thi - tlo)"
      using neg by (intro mult_right_mono_neg) simp_all
    moreover have "(1 - 1 / real_of_int (ahi - alo)) * real_of_int (thi - tlo) =
        real_of_int (thi - tlo) + real_of_int (tlo - thi) / real_of_int (ahi - alo)"
      by (simp add: algebra_simps diff_divide_distrib)
    ultimately have "real_of_int (thi - tlo) + 1 / 16 \<le> x"
      using slope unfolding xc by linarith
    then have "real_of_int (16 * (thi - tlo) + 1) / 16 \<le> x" by simp
    then have "real_of_int (16 * (thi - tlo) + 1) / 16 \<le> f32 x"
      using t by (intro f32_ge_16) simp_all
    then have "real_of_int (16 * thi + 1) / 16 \<le> real_of_int tlo + f32 x" by simp
    then have "real_of_int (16 * thi + 1) / 16 \<le> r"
      unfolding req using t by (intro f32_ge_16) simp_all
    then show ?thesis by simp
  qed
  show "r = real_of_int thi" if "a = ahi"
  proof -
    from that d have "x = real_of_int (thi - tlo)" by (simp add: x_def)
    then have "f32 x = real_of_int (thi - tlo)" using small by (simp only: f32_of_int)
    then have "real_of_int tlo + f32 x = real_of_int thi" by simp
    then show ?thesis unfolding req using small by (simp only: f32_of_int)
  qed
  show "\<bar>r - (real_of_int tlo + x)\<bar> < 1 / 32768"
  proof -
    have xa: "\<bar>x\<bar> \<le> 50" using x_ge x_le t by simp
    have e1: "\<bar>f32 x - x\<bar> \<le> 50 / 16777216"
      using f32_err [of x] xa by simp
    have s_lo: "0 \<le> real_of_int tlo + f32 x" using q_ge t by simp
    have s_hi: "real_of_int tlo + f32 x \<le> 300" using q_le t by simp
    have e2: "\<bar>r - (real_of_int tlo + f32 x)\<bar> \<le> 300 / 16777216"
      unfolding req using f32_err [of "real_of_int tlo + f32 x"] s_lo s_hi by simp
    from e1 e2 show ?thesis by linarith
  qed
qed

text \<open>C7 (amended). For a fresh sample whose raw value lies above the ADC value of a
  table entry and at or below the ADC value of the next entry (and below 1023), the
  returned temperature is the linear interpolation between the two entries computed in
  single precision: the quotient and the sum are rounded. It is within 1/32768 of the
  exact interpolation; it lies between the temperatures of the two entries, strictly
  above the lower one when the raw value is strictly between the two ADC values, and it
  equals the upper entry's temperature when the raw value equals that entry's ADC value
  (the entries 200 to 900).\<close>

theorem readTemperature_interpolation:
  assumes "i < 16" and "\<not> now - lastReadTime st ! i < readInterval"
    and "Suc j < length tempTable"
    and "tempTable ! j = (adcLow, tempLow)" and "tempTable ! Suc j = (adcHigh, tempHigh)"
    and "adcLow < a" and "a \<le> adcHigh" and "a < 1023"
  shows "\<exists>t st'. readTemperature now a st (tempSensors ! i) = Inr (t, st') \<and>
           t = f32 (real_of_int tempLow +
                 f32 (real_of_int ((a - adcLow) * (tempHigh - tempLow)) /
                      real_of_int (adcHigh - adcLow))) \<and>
           \<bar>t - interpolation_spec a (adcLow, tempLow) (adcHigh, tempHigh)\<bar> < 1 / 32768 \<and>
           real_of_int tempHigh \<le> t \<and> t < real_of_int tempLow \<and>
           (a < adcHigh \<longrightarrow> real_of_int tempHigh < t) \<and>
           (a = adcHigh \<longrightarrow> t = real_of_int tempHigh)"
proof -
  define r where "r = fadd (float_of_int tempLow)
      (fdiv (fmul (fsub (float_of_int a) (float_of_int adcLow))
               (fsub (float_of_int tempHigh) (float_of_int tempLow)))
         (fsub (float_of_int adcHigh) (float_of_int adcLow)))"
  note tab = tempTable_adjacent [OF assms(3,4,5)]
  have k: "tableScan a 0 = Suc j"
    using assms by (intro tableScan_between) simp_all
  have "0 < a" using tab assms(6) by simp
  then have "\<exists>st'. readTemperature now a st (tempSensors ! i) = Inr (r, st')"
    using assms k readSegment_unfold [OF assms(1), of "\<lambda>i. (now, a)" st]
    by (simp add: readSegment_def Let_def r_def)
  then obtain st' where rd: "readTemperature now a st (tempSensors ! i) = Inr (r, st')" by blast
  note ib = interp_f32 [OF tab assms(6,7), folded r_def]
  have e: "real_of_int tempLow + real_of_int ((a - adcLow) * (tempHigh - tempLow)) /
      real_of_int (adcHigh - adcLow) = interpolation_spec a (adcLow, tempLow) (adcHigh, tempHigh)"
    by (simp add: interpolation_spec_def)
  have "a < adcHigh \<longrightarrow> real_of_int tempHigh < r" using ib(4) by simp
  moreover have "a = adcHigh \<longrightarrow> r = real_of_int tempHigh" using ib(5) by simp
  moreover have "\<bar>r - interpolation_spec a (adcLow, tempLow) (adcHigh, tempHigh)\<bar> < 1 / 32768"
    using ib(6) unfolding e .
  ultimately show ?thesis using rd ib(1,2,3) by blast
qed

theorem readTemperature_interpolation_witness:
  "\<exists>t st'. readTemperature 5000 100 initial_state (tempSensors ! 0) = Inr (t, st') \<and>
     t = 9015317 / 32768 \<and> \<bar>t - 54750 / 199\<bar> < 1 / 32768 \<and> 250 < t \<and> t < 300"
proof -
  have "\<not> (5000::millis) - lastReadTime initial_state ! 0 < readInterval"
    by (simp add: initial_state_def readInterval_def)
  from readTemperature_interpolation [OF _ this, of 0 1 300 200 250 100]
  show ?thesis by (auto simp add: tempTable_def interpolation_spec_def f32_eval)
qed

text \<open>The raw value 100 gives 9015317/32768 = 275.125640869140625, not the exact
  interpolation 54750/199. And the raw value 1023 is the ADC value of the last table
  entry, whose temperature is 0; the range check rejects it and the sentinel is
  returned.\<close>

theorem readTemperature_not_exact_counterexample:
  "(case readTemperature 5000 100 initial_state (tempSensors ! 0) of
      Inl f \<Rightarrow> False
    | Inr (t, st') \<Rightarrow> t = 9015317 / 32768 \<and>
        interpolation_spec 100 (1, 300) (200, 250) = 54750 / 199 \<and>
        t \<noteq> interpolation_spec 100 (1, 300) (200, 250)) \<and>
   (1023, 0) \<in> set tempTable \<and>
   (case readTemperature 5000 1023 initial_state (tempSensors ! 0) of
      Inl f \<Rightarrow> False | Inr (t, st') \<Rightarrow> t = -999 \<and> t \<noteq> 0)"
proof -
  have f: "float_of_int 100 = 100" "float_of_int 1 = 1" "float_of_int 300 = 300"
    "float_of_int 200 = 200" "float_of_int 250 = 250"
    by (simp_all add: float_of_int_small)
  have s: "fsub 100 1 = 99" "fsub 250 300 = - 50" "fsub 200 1 = 199"
    using fsub_int [of 100 1] fsub_int [of 250 300] fsub_int [of 200 1] by simp_all
  have m: "fmul 99 (- 50) = - 4950" using fmul_int [of 99 "- 50"] by simp
  have v: "fadd 300 (fdiv (- 4950) 199) = 9015317 / 32768"
    by (simp add: fadd_def fdiv_def f32_eval)
  have k: "tableScan 100 0 = 1" by (simp add: tableScan.simps tempTable_def tempTableSize_def)
  have 1: "case readTemperature 5000 100 initial_state (tempSensors ! 0) of
      Inl f \<Rightarrow> False
    | Inr (t, st') \<Rightarrow> t = 9015317 / 32768 \<and>
        interpolation_spec 100 (1, 300) (200, 250) = 54750 / 199 \<and>
        t \<noteq> interpolation_spec 100 (1, 300) (200, 250)"
    using readSegment_unfold [of 0 "\<lambda>i. (5000, 100)" initial_state]
    by (simp add: readSegment_def initial_state_def readInterval_def k tempTable_def f s m v
        interpolation_spec_def Let_def)
  have 2: "case readTemperature 5000 1023 initial_state (tempSensors ! 0) of
      Inl f \<Rightarrow> False | Inr (t, st') \<Rightarrow> t = -999 \<and> t \<noteq> 0"
    using readSegment_unfold [of 0 "\<lambda>i. (5000, 1023)" initial_state]
    by (simp add: readSegment_def initial_state_def readInterval_def)
  have 3: "(1023, 0) \<in> set tempTable" by (simp add: tempTable_def)
  from 1 2 3 show ?thesis by blast
qed

subsection \<open>Setpoint input on a timeout\<close>

lemma to_int16_small: "- 32768 \<le> x \<Longrightarrow> x \<le> 32767 \<Longrightarrow> to_int16 x = x"
  by (simp add: to_int16_def)

lemma to_int32_small: "- 2147483648 \<le> x \<Longrightarrow> x \<le> 2147483647 \<Longrightarrow> to_int32 x = x"
  by (simp add: to_int32_def)

lemma to_long_range: "to_long x = Inr n \<Longrightarrow> - 2147483648 \<le> n \<and> n \<le> 2147483647"
  by (auto simp: to_long_def split: if_splits)

lemma float_of_int_eq_sentinel: "float_of_int n = - 999 \<longleftrightarrow> n = - 999"
proof
  assume a: "float_of_int n = - 999"
  show "n = - 999"
  proof (rule ccontr)
    assume "n \<noteq> - 999"
    then consider "n \<le> - 1000" | "- 998 \<le> n" by linarith
    then show False
    proof cases
      case 1
      then have "real_of_int n \<le> real_of_int (- 1000)" by (simp only: of_int_le_iff)
      then have "f32 (real_of_int n) \<le> real_of_int (- 1000)" by (intro f32_le_int) simp_all
      with a show False by (simp add: float_of_int_def)
    next
      case 2
      then have "real_of_int (- 998) \<le> real_of_int n" by (simp only: of_int_le_iff)
      then have "real_of_int (- 998) \<le> f32 (real_of_int n)" by (intro f32_ge_int) simp_all
      with a show False by (simp add: float_of_int_def)
    qed
  qed
next
  assume "n = - 999"
  then show "float_of_int n = - 999" using f32_of_int [of "- 999"] by (simp add: float_of_int_def)
qed

text \<open>With the default range (0 to 255) a timeout is not reported: \<^verbatim>\<open>pulseIn\<close> gives
  0, which is inside the range, and the mapped temperature 0 is returned.\<close>

theorem readTargetTemperature_timeout_counterexample:
  "readTargetTemperature NoPulse initial_state = Inr (0, initial_state) \<and> (0::real) \<noteq> -999"
  by (simp add: readTargetTemperature_def initial_state_def map_arduino_def c_div_def
      to_long_def truncated_def andThen_def to_int16_def to_int32_def float_of_int_def)

text \<open>C6 (amended). On a timeout \<^verbatim>\<open>pulseIn\<close> gives 0. When 0 is outside the configured
  PWM range, \<^verbatim>\<open>readTargetTemperature\<close> prints the range error and returns the sentinel
  -999. When the range contains 0 and is not degenerate (\<^verbatim>\<open>pwmMinValue < pwmMaxValue\<close>,
  both 16-bit values, and \<^verbatim>\<open>tempMin\<close> and \<^verbatim>\<open>tempMax\<close> within the range of a \<^verbatim>\<open>long\<close>),
  it prints nothing and returns the value that \<^verbatim>\<open>map\<close>, computing in 32-bit integers,
  gives for 0, converted to float; for a range starting at 0, as the default one, this
  is \<^verbatim>\<open>tempMin\<close> truncated to an integer, which is -999 only when \<^verbatim>\<open>tempMin\<close> truncates
  to -999. With the range 0 to 0 the mapping divides by zero.\<close>

theorem readTargetTemperature_timeout:
  "(0 < pwmMinValue st \<or> pwmMaxValue st < 0 \<longrightarrow>
      readTargetTemperature NoPulse st = Inr (-999, prints timeoutErrorLine st)) \<and>
   (- 32768 \<le> pwmMinValue st \<and> pwmMinValue st \<le> 0 \<and> 0 \<le> pwmMaxValue st \<and>
    pwmMaxValue st \<le> 32767 \<and> pwmMinValue st < pwmMaxValue st \<and>
    to_long (tempMin st) = Inr lo \<and> to_long (tempMax st) = Inr hi \<longrightarrow>
      readTargetTemperature NoPulse st =
        Inr (float_of_int
               (to_int32 (to_int32 (c_div (to_int32 (- pwmMinValue st * to_int32 (hi - lo)))
                                      (pwmMaxValue st - pwmMinValue st)) + lo)), st)) \<and>
   (pwmMinValue st = 0 \<and> 0 < pwmMaxValue st \<and> pwmMaxValue st \<le> 32767 \<and>
    to_long (tempMin st) = Inr lo \<and> to_long (tempMax st) = Inr hi \<longrightarrow>
      readTargetTemperature NoPulse st = Inr (float_of_int lo, st) \<and>
      (float_of_int lo = - 999 \<longleftrightarrow> lo = - 999)) \<and>
   (pwmMinValue st = 0 \<and> pwmMaxValue st = 0 \<and>
    to_long (tempMin st) = Inr lo \<and> to_long (tempMax st) = Inr hi \<longrightarrow>
      readTargetTemperature NoPulse st = Inl MapDivisionByZero)"
proof -
  have 1: "readTargetTemperature NoPulse st = Inr (-999, prints timeoutErrorLine st)"
    if "0 < pwmMinValue st \<or> pwmMaxValue st < 0"
    using that by (auto simp: readTargetTemperature_def to_int16_def timeoutErrorLine_def)
  have 2: "readTargetTemperature NoPulse st =
        Inr (float_of_int
               (to_int32 (to_int32 (c_div (to_int32 (- pwmMinValue st * to_int32 (hi - lo)))
                                      (pwmMaxValue st - pwmMinValue st)) + lo)), st)"
    if a: "- 32768 \<le> pwmMinValue st \<and> pwmMinValue st \<le> 0 \<and> 0 \<le> pwmMaxValue st \<and>
      pwmMaxValue st \<le> 32767 \<and> pwmMinValue st < pwmMaxValue st \<and>
      to_long (tempMin st) = Inr lo \<and> to_long (tempMax st) = Inr hi"
  proof -
    from a have d: "to_int32 (pwmMaxValue st - pwmMinValue st) = pwmMaxValue st - pwmMinValue st"
      by (intro to_int32_small) simp_all
    from a have n: "to_int32 (0 - pwmMinValue st) = - pwmMinValue st"
      using to_int32_small [of "- pwmMinValue st"] by simp
    from a d n show ?thesis
      by (simp add: readTargetTemperature_def map_arduino_def andThen_def to_int16_def Let_def)
  qed
  have 3: "readTargetTemperature NoPulse st = Inr (float_of_int lo, st) \<and>
      (float_of_int lo = - 999 \<longleftrightarrow> lo = - 999)"
    if a: "pwmMinValue st = 0 \<and> 0 < pwmMaxValue st \<and> pwmMaxValue st \<le> 32767 \<and>
      to_long (tempMin st) = Inr lo \<and> to_long (tempMax st) = Inr hi"
  proof -
    from a have d: "to_int32 (pwmMaxValue st) = pwmMaxValue st"
      by (intro to_int32_small) simp_all
    from a have l: "to_int32 lo = lo" using to_long_range [of "tempMin st" lo]
      by (intro to_int32_small) simp_all
    have z: "to_int32 0 = 0" by (simp add: to_int32_def)
    from a d l z have "readTargetTemperature NoPulse st = Inr (float_of_int lo, st)"
      by (simp add: readTargetTemperature_def map_arduino_def andThen_def to_int16_def Let_def
          c_div_def)
    then show ?thesis by (simp only: float_of_int_eq_sentinel simp_thms)
  qed
  have 4: "readTargetTemperature NoPulse st = Inl MapDivisionByZero"
    if "pwmMinValue st = 0 \<and> pwmMaxValue st = 0 \<and>
      to_long (tempMin st) = Inr lo \<and> to_long (tempMax st) = Inr hi"
    using that
    by (simp add: readTargetTemperature_def map_arduino_def andThen_def to_int16_def Let_def
        to_int32_def)
  from 1 2 3 4 show ?thesis by blast
qed

theorem readTargetTemperature_timeout_witness:
  "readTargetTemperature NoPulse (initial_state\<lparr>pwmMinValue := 500, pwmMaxValue := 2000\<rparr>)
       = Inr (-999, prints timeoutErrorLine
                      (initial_state\<lparr>pwmMinValue := 500, pwmMaxValue := 2000\<rparr>)) \<and>
   readTargetTemperature NoPulse (initial_state\<lparr>pwmMinValue := -100, pwmMaxValue := 100\<rparr>)
       = Inr (140, initial_state\<lparr>pwmMinValue := -100, pwmMaxValue := 100\<rparr>) \<and>
   readTargetTemperature NoPulse
       (initial_state\<lparr>pwmMinValue := -32000, pwmMaxValue := 8000, tempMax := 200000\<rparr>)
       = Inr (52625,
              initial_state\<lparr>pwmMinValue := -32000, pwmMaxValue := 8000, tempMax := 200000\<rparr>) \<and>
   readTargetTemperature NoPulse (initial_state\<lparr>tempMin := -999\<rparr>)
       = Inr (-999, initial_state\<lparr>tempMin := -999\<rparr>) \<and>
   readTargetTemperature NoPulse (initial_state\<lparr>pwmMaxValue := 0\<rparr>) = Inl MapDivisionByZero"
proof -
  have t: "to_long 0 = Inr 0" "to_long 280 = Inr 280" "to_long 200000 = Inr 200000"
    "to_long (- 999) = Inr (- 999)"
    by (simp_all add: to_long_def truncated_def)
  have f: "float_of_int 140 = 140" "float_of_int 52625 = 52625" "float_of_int (- 999) = - 999"
    using float_of_int_eq_sentinel [of "- 999"] f32_of_int [of 140] f32_of_int [of 52625]
    by (simp_all add: float_of_int_def)
  have 1: "readTargetTemperature NoPulse (initial_state\<lparr>pwmMinValue := 500, pwmMaxValue := 2000\<rparr>)
       = Inr (-999, prints timeoutErrorLine
                      (initial_state\<lparr>pwmMinValue := 500, pwmMaxValue := 2000\<rparr>))"
    using readTargetTemperature_timeout
      [of "initial_state\<lparr>pwmMinValue := 500, pwmMaxValue := 2000\<rparr>"] by simp
  have 2: "readTargetTemperature NoPulse (initial_state\<lparr>pwmMinValue := -100, pwmMaxValue := 100\<rparr>)
       = Inr (140, initial_state\<lparr>pwmMinValue := -100, pwmMaxValue := 100\<rparr>)"
    using readTargetTemperature_timeout
      [of "initial_state\<lparr>pwmMinValue := -100, pwmMaxValue := 100\<rparr>" 0 280]
    by (simp add: initial_state_def c_div_def to_int32_def t f)
  have 3: "readTargetTemperature NoPulse
       (initial_state\<lparr>pwmMinValue := -32000, pwmMaxValue := 8000, tempMax := 200000\<rparr>)
       = Inr (52625,
              initial_state\<lparr>pwmMinValue := -32000, pwmMaxValue := 8000, tempMax := 200000\<rparr>)"
    using readTargetTemperature_timeout
      [of "initial_state\<lparr>pwmMinValue := -32000, pwmMaxValue := 8000, tempMax := 200000\<rparr>"
          0 200000]
    by (simp add: initial_state_def c_div_def to_int32_def t f)
  have 4: "readTargetTemperature NoPulse (initial_state\<lparr>tempMin := -999\<rparr>)
       = Inr (-999, initial_state\<lparr>tempMin := -999\<rparr>)"
    using readTargetTemperature_timeout [of "initial_state\<lparr>tempMin := -999\<rparr>" "- 999" 280]
    by (simp add: initial_state_def t f c_div_def to_int32_def)
  have 5: "readTargetTemperature NoPulse (initial_state\<lparr>pwmMaxValue := 0\<rparr>) = Inl MapDivisionByZero"
    using readTargetTemperature_timeout [of "initial_state\<lparr>pwmMaxValue := 0\<rparr>" 0 280]
    by (simp add: initial_state_def t)
  from 1 2 3 4 5 show ?thesis by blast
qed

subsection \<open>PID engine at zero elapsed time\<close>








section \<open>Verification: thermal safety monitor\<close>

lemma set_all_step:
  "n < length xs \<Longrightarrow> (replicate n v @ drop n xs)[n := v] = replicate (Suc n) v @ drop (Suc n) xs"
  by (simp add: list_update_append replicate_append_same upd_conv_take_nth_drop
      Cons_nth_drop_Suc)

lemma fold_set_all:
  assumes "n \<le> length (relayLevel st)" and "n \<le> length (activeSegments st)"
  shows "fold (\<lambda>i s. s\<lparr>relayLevel := (relayLevel s)[i := v],
                        activeSegments := (activeSegments s)[i := b]\<rparr>) [0..<n] st =
         st\<lparr>relayLevel := replicate n v @ drop n (relayLevel st),
            activeSegments := replicate n b @ drop n (activeSegments st)\<rparr>"
  using assms
proof (induction n)
  case 0
  then show ?case by simp
next
  case (Suc n)
  then show ?case by (simp add: set_all_step)
qed

lemma deactivateAllSegments_eq:
  assumes "wf_state st"
  shows "deactivateAllSegments st =
         st\<lparr>relayLevel := replicate 16 LOW, activeSegments := replicate 16 False\<rparr>"
  using assms fold_set_all [where n = 16 and st = st and v = LOW and b = False]
  by (simp add: deactivateAllSegments_def wf_state_def)

lemma readSegment_frame:
  assumes "i < 16" and "readSegment smp i st = Inr (t, st1)"
  shows "\<exists>lr c. st1 = st\<lparr>lastReadTime := (lastReadTime st)[i := lr],
                        cachedTemperatures := (cachedTemperatures st)[i := c]\<rparr>"
proof (cases "fst (smp i) - lastReadTime st ! i < readInterval")
  case True
  with assms have "st1 = st" by (simp add: readSegment_unfold)
  then have "st1 = st\<lparr>lastReadTime := (lastReadTime st)[i := lastReadTime st ! i],
                cachedTemperatures := (cachedTemperatures st)[i := cachedTemperatures st ! i]\<rparr>"
    by simp
  then show ?thesis by blast
next
  case False
  with assms show ?thesis
    by (auto simp: readSegment_unfold Let_def split: if_splits)
qed

lemma segmentReading_cong:
  assumes "i < 16" and "lastReadTime st ! i = lastReadTime st0 ! i"
    and "cachedTemperatures st ! i = cachedTemperatures st0 ! i"
  shows "segmentReading smp st i = segmentReading smp st0 i"
  using assms by (simp add: segmentReading_def readSegment_unfold Let_def)

lemma segmentReading_Some:
  "segmentReading smp st i = Some t \<Longrightarrow> \<exists>st1. readSegment smp i st = Inr (t, st1)"
  by (auto simp: segmentReading_def split: sum.splits)

lemma agree_from_step:
  assumes "agree_from k st st0" and "k < 16" and "readSegment smp k st = Inr (t, st1)"
  shows "agree_from (Suc k) st1 st0"
proof -
  from readSegment_frame [OF assms(2,3)] obtain lr c where
    "st1 = st\<lparr>lastReadTime := (lastReadTime st)[k := lr],
               cachedTemperatures := (cachedTemperatures st)[k := c]\<rparr>" by blast
  with assms(1) show ?thesis by (auto simp: agree_from_def wf_state_def)
qed

lemma checkThermalSafetyFrom_trips:
  assumes "agree_from k st st0" and "k \<le> i" and "i < 16"
    and "\<forall>j. k \<le> j \<and> j \<le> i \<longrightarrow> segmentReading smp st0 j \<noteq> None"
    and "segmentReading smp st0 i = Some t" and "MAX_SAFE_TEMPERATURE < t"
  shows "\<exists>m tm st'. k \<le> m \<and> m \<le> i \<and> checkThermalSafetyFrom smp k st = Inr st' \<and>
           segmentReading smp st0 m = Some tm \<and> MAX_SAFE_TEMPERATURE < tm \<and>
           (\<forall>j. k \<le> j \<and> j < m \<longrightarrow>
              (\<exists>tj. segmentReading smp st0 j = Some tj \<and> tj \<le> MAX_SAFE_TEMPERATURE)) \<and>
           thermalSafetyTriggered st' \<and> activeSegments st' = replicate 16 False \<and>
           relayLevel st' = replicate 16 LOW \<and>
           serialOut st' = serialOut st0 @ alertLine m tm \<and>
           (\<forall>j. m < j \<and> j < 16 \<longrightarrow> lastReadTime st' ! j = lastReadTime st0 ! j \<and>
              cachedTemperatures st' ! j = cachedTemperatures st0 ! j)"
  using assms
proof (induction "i - k" arbitrary: k st)
  case 0
  then have ki: "k = i" by simp
  from 0 have k16: "k < 16" by simp
  have "segmentReading smp st k = segmentReading smp st0 k"
    using "0.prems"(1) k16 by (intro segmentReading_cong) (auto simp: agree_from_def)
  with "0.prems"(5) ki obtain st1 where r: "readSegment smp k st = Inr (t, st1)"
    using segmentReading_Some by metis
  from agree_from_step [OF "0.prems"(1) k16 r] have a1: "agree_from (Suc k) st1 st0" .
  then have w1: "wf_state (st1\<lparr>thermalSafetyTriggered := True\<rparr>)"
    by (simp add: agree_from_def wf_state_def)
  let ?st' = "prints (alertLine k t) (deactivateAllSegments (st1\<lparr>thermalSafetyTriggered := True\<rparr>))"
  have c: "checkThermalSafetyFrom smp k st = Inr ?st'"
    using r k16 "0.prems"(6)
    by (subst checkThermalSafetyFrom.simps) (simp add: andThen_def alertLine_def)
  have "thermalSafetyTriggered ?st' \<and> activeSegments ?st' = replicate 16 False \<and>
        relayLevel ?st' = replicate 16 LOW \<and>
        serialOut ?st' = serialOut st0 @ alertLine k t \<and>
        (\<forall>j. k < j \<and> j < 16 \<longrightarrow> lastReadTime ?st' ! j = lastReadTime st0 ! j \<and>
              cachedTemperatures ?st' ! j = cachedTemperatures st0 ! j)"
    using a1 by (simp add: deactivateAllSegments_eq [OF w1] prints_def agree_from_def)
  with c "0.prems"(5,6) ki show ?case by (intro exI [of _ k] exI [of _ t] exI [of _ ?st']) auto
next
  case (Suc n)
  then have k16: "k < 16" and kl: "k < i" by simp_all
  have eq: "segmentReading smp st k = segmentReading smp st0 k"
    using Suc.prems(1) k16 by (intro segmentReading_cong) (auto simp: agree_from_def)
  from Suc.prems(4) kl have "segmentReading smp st0 k \<noteq> None" by simp
  then obtain tk where tk: "segmentReading smp st0 k = Some tk" by blast
  with eq obtain st1 where r: "readSegment smp k st = Inr (tk, st1)"
    using segmentReading_Some by metis
  from agree_from_step [OF Suc.prems(1) k16 r] have a1: "agree_from (Suc k) st1 st0" .
  show ?case
  proof (cases "MAX_SAFE_TEMPERATURE < tk")
    case True
    from a1 have w1: "wf_state (st1\<lparr>thermalSafetyTriggered := True\<rparr>)"
      by (simp add: agree_from_def wf_state_def)
    let ?st' = "prints (alertLine k tk)
                  (deactivateAllSegments (st1\<lparr>thermalSafetyTriggered := True\<rparr>))"
    have c: "checkThermalSafetyFrom smp k st = Inr ?st'"
      using r k16 True
      by (subst checkThermalSafetyFrom.simps) (simp add: andThen_def alertLine_def)
    have "thermalSafetyTriggered ?st' \<and> activeSegments ?st' = replicate 16 False \<and>
          relayLevel ?st' = replicate 16 LOW \<and>
          serialOut ?st' = serialOut st0 @ alertLine k tk \<and>
          (\<forall>j. k < j \<and> j < 16 \<longrightarrow> lastReadTime ?st' ! j = lastReadTime st0 ! j \<and>
                cachedTemperatures ?st' ! j = cachedTemperatures st0 ! j)"
      using a1 by (simp add: deactivateAllSegments_eq [OF w1] prints_def agree_from_def)
    with c tk True kl show ?thesis
      by (intro exI [of _ k] exI [of _ tk] exI [of _ ?st']) auto
  next
    case False
    have c: "checkThermalSafetyFrom smp k st = checkThermalSafetyFrom smp (Suc k) st1"
      using r k16 False by (subst checkThermalSafetyFrom.simps) (simp add: andThen_def)
    have n: "n = i - Suc k" using Suc.hyps(2) by simp
    have p4: "\<forall>j. Suc k \<le> j \<and> j \<le> i \<longrightarrow> segmentReading smp st0 j \<noteq> None"
      using Suc.prems(4) by simp
    from Suc.hyps(1) [OF n a1 _ Suc.prems(3) p4 Suc.prems(5,6)] kl
    obtain m tm st' where m: "Suc k \<le> m" "m \<le> i"
      "checkThermalSafetyFrom smp (Suc k) st1 = Inr st'"
      "segmentReading smp st0 m = Some tm" "MAX_SAFE_TEMPERATURE < tm"
      "\<forall>j. Suc k \<le> j \<and> j < m \<longrightarrow>
          (\<exists>tj. segmentReading smp st0 j = Some tj \<and> tj \<le> MAX_SAFE_TEMPERATURE)"
      "thermalSafetyTriggered st'" "activeSegments st' = replicate 16 False"
      "relayLevel st' = replicate 16 LOW"
      "serialOut st' = serialOut st0 @ alertLine m tm"
      "\<forall>j. m < j \<and> j < 16 \<longrightarrow> lastReadTime st' ! j = lastReadTime st0 ! j \<and>
          cachedTemperatures st' ! j = cachedTemperatures st0 ! j"
      by auto
    have "\<forall>j. k \<le> j \<and> j < m \<longrightarrow>
          (\<exists>tj. segmentReading smp st0 j = Some tj \<and> tj \<le> MAX_SAFE_TEMPERATURE)"
    proof (intro allI impI)
      fix j assume j: "k \<le> j \<and> j < m"
      show "\<exists>tj. segmentReading smp st0 j = Some tj \<and> tj \<le> MAX_SAFE_TEMPERATURE"
      proof (cases "j = k")
        case True
        with tk False show ?thesis by simp
      next
        case False
        with j m(6) show ?thesis by simp
      qed
    qed
    with m c show ?thesis
      by (intro exI [of _ m] exI [of _ tm] exI [of _ st']) auto
  qed
qed

lemma checkThermalSafetyFrom_no_trip:
  assumes "agree_from k st st0" and "k \<le> 16"
    and "\<forall>j. k \<le> j \<and> j < 16 \<longrightarrow>
          (\<exists>tj. segmentReading smp st0 j = Some tj \<and> tj \<le> MAX_SAFE_TEMPERATURE)"
  shows "\<exists>st'. checkThermalSafetyFrom smp k st = Inr st' \<and>
           thermalSafetyTriggered st' = thermalSafetyTriggered st \<and>
           activeSegments st' = activeSegments st \<and> relayLevel st' = relayLevel st \<and>
           serialOut st' = serialOut st"
  using assms
proof (induction "16 - k" arbitrary: k st)
  case 0
  then have "\<not> k < 16" by simp
  then have "checkThermalSafetyFrom smp k st = Inr st"
    by (subst checkThermalSafetyFrom.simps) simp
  then show ?case by simp
next
  case (Suc n)
  then have k16: "k < 16" by simp
  have eq: "segmentReading smp st k = segmentReading smp st0 k"
    using Suc.prems(1) k16 by (intro segmentReading_cong) (auto simp: agree_from_def)
  from Suc.prems(3) k16 obtain tk where
    tk: "segmentReading smp st0 k = Some tk" "tk \<le> MAX_SAFE_TEMPERATURE" by auto
  with eq obtain st1 where r: "readSegment smp k st = Inr (tk, st1)"
    using segmentReading_Some by metis
  from agree_from_step [OF Suc.prems(1) k16 r] have a1: "agree_from (Suc k) st1 st0" .
  from readSegment_frame [OF k16 r] have same:
    "thermalSafetyTriggered st1 = thermalSafetyTriggered st"
    "activeSegments st1 = activeSegments st" "relayLevel st1 = relayLevel st"
    "serialOut st1 = serialOut st" by auto
  have c: "checkThermalSafetyFrom smp k st = checkThermalSafetyFrom smp (Suc k) st1"
    using r k16 tk(2) by (subst checkThermalSafetyFrom.simps) (simp add: andThen_def)
  have n: "n = 16 - Suc k" using Suc.hyps(2) by simp
  have p3: "\<forall>j. Suc k \<le> j \<and> j < 16 \<longrightarrow>
          (\<exists>tj. segmentReading smp st0 j = Some tj \<and> tj \<le> MAX_SAFE_TEMPERATURE)"
    using Suc.prems(3) by simp
  from Suc.hyps(1) [OF n a1 _ p3] k16 c same show ?case by simp
qed

lemma agree_from_refl: "wf_state st \<Longrightarrow> agree_from k st st"
  by (simp add: agree_from_def)

text \<open>C1 (amended). If the safety scan reads a temperature strictly above the 120 degree
  ceiling for some segment \<^verbatim>\<open>i\<close> (and the reads of the segments up to \<^verbatim>\<open>i\<close> do not
  fault), then after the scan the safety latch is true and all 16 segments have
  \<^verbatim>\<open>active = false\<close>; the scan stops at the first segment \<^verbatim>\<open>m\<close> in index order whose
  reading is above the ceiling: the alert names that segment and the segments after it
  are not read. All of this happens within the one call.\<close>

theorem checkThermalSafety_trips:
  assumes "wf_state st" and "i < 16"
    and "\<forall>j. j \<le> i \<longrightarrow> segmentReading smp st j \<noteq> None"
    and "segmentReading smp st i = Some t" and "MAX_SAFE_TEMPERATURE < t"
  shows "\<exists>m tm st'. m \<le> i \<and> checkThermalSafety smp st = Inr st' \<and>
           segmentReading smp st m = Some tm \<and> MAX_SAFE_TEMPERATURE < tm \<and>
           (\<forall>j. j < m \<longrightarrow>
              (\<exists>tj. segmentReading smp st j = Some tj \<and> tj \<le> MAX_SAFE_TEMPERATURE)) \<and>
           thermalSafetyTriggered st' \<and> activeSegments st' = replicate 16 False \<and>
           serialOut st' = serialOut st @ alertLine m tm \<and>
           (\<forall>j. m < j \<and> j < 16 \<longrightarrow> lastReadTime st' ! j = lastReadTime st ! j \<and>
              cachedTemperatures st' ! j = cachedTemperatures st ! j)"
proof -
  have p4: "\<forall>j. 0 \<le> j \<and> j \<le> i \<longrightarrow> segmentReading smp st j \<noteq> None"
    using assms(3) by simp
  from checkThermalSafetyFrom_trips [OF agree_from_refl [OF assms(1)] _ assms(2) p4 assms(4,5)]
  obtain m tm st' where "m \<le> i"
      "checkThermalSafetyFrom smp 0 st = Inr st'"
      "segmentReading smp st m = Some tm" "MAX_SAFE_TEMPERATURE < tm"
      "\<forall>j. 0 \<le> j \<and> j < m \<longrightarrow>
          (\<exists>tj. segmentReading smp st j = Some tj \<and> tj \<le> MAX_SAFE_TEMPERATURE)"
      "thermalSafetyTriggered st'" "activeSegments st' = replicate 16 False"
      "serialOut st' = serialOut st @ alertLine m tm"
      "\<forall>j. m < j \<and> j < 16 \<longrightarrow> lastReadTime st' ! j = lastReadTime st ! j \<and>
          cachedTemperatures st' ! j = cachedTemperatures st ! j"
    by auto
  then show ?thesis
    unfolding checkThermalSafety_def
    by (intro exI [of _ m] exI [of _ tm] exI [of _ st']) simp
qed

lemma hot2_readings:
  "i < 16 \<Longrightarrow> segmentReading hot2 initial_state i = Some (if i = 2 then 135 else 10)"
  by (simp add: segmentReading_def readSegment_unfold hot2_def initial_state_def
      readInterval_def tableScan.simps tempTable_def tempTableSize_def Let_def float_ops)

theorem checkThermalSafety_trips_witness:
  "\<exists>st'. checkThermalSafety hot2 initial_state = Inr st' \<and>
      thermalSafetyTriggered st' \<and> activeSegments st' = replicate 16 False \<and>
      serialOut st' = alertLine 2 135 \<and> lastReadTime st' ! 3 = 0"
proof -
  have w: "wf_state initial_state" by (simp add: wf_state_def initial_state_def)
  have n: "\<forall>j. j \<le> 2 \<longrightarrow> segmentReading hot2 initial_state j \<noteq> None"
    by (simp add: hot2_readings)
  have r: "segmentReading hot2 initial_state 2 = Some 135" by (simp add: hot2_readings)
  have h: "MAX_SAFE_TEMPERATURE < 135" by (simp add: MAX_SAFE_TEMPERATURE_def)
  from checkThermalSafety_trips [OF w _ n r h]
  obtain m tm st' where m: "m \<le> 2" "checkThermalSafety hot2 initial_state = Inr st'"
      "segmentReading hot2 initial_state m = Some tm" "MAX_SAFE_TEMPERATURE < tm"
      "thermalSafetyTriggered st'" "activeSegments st' = replicate 16 False"
      "serialOut st' = serialOut initial_state @ alertLine m tm"
      "\<forall>j. m < j \<and> j < 16 \<longrightarrow> lastReadTime st' ! j = lastReadTime initial_state ! j \<and>
          cachedTemperatures st' ! j = cachedTemperatures initial_state ! j"
    by auto
  from m(1,3,4) have m2: "m = 2 \<and> tm = 135"
    by (cases "m = 2") (simp_all add: hot2_readings MAX_SAFE_TEMPERATURE_def)
  from m m2 show ?thesis
    by (intro exI [of _ st']) (simp add: initial_state_def)
qed

lemma at120_readings:
  "i < 16 \<Longrightarrow> segmentReading at120 initial_state i = Some (if i = 0 then 120 else 10)"
  by (simp add: segmentReading_def readSegment_unfold at120_def initial_state_def
      readInterval_def tableScan.simps tempTable_def tempTableSize_def Let_def float_ops)

text \<open>A reading of exactly 120 degrees (raw value 500) does not trip the latch: the
  comparison of the code is strict.\<close>

theorem checkThermalSafety_at_ceiling_counterexample:
  "segmentReading at120 initial_state 0 = Some 120 \<and> MAX_SAFE_TEMPERATURE \<le> 120 \<and>
   (\<exists>st'. checkThermalSafety at120 initial_state = Inr st' \<and>
      \<not> thermalSafetyTriggered st' \<and> serialOut st' = [])"
proof -
  have w: "wf_state initial_state" by (simp add: wf_state_def initial_state_def)
  have "\<forall>j. 0 \<le> j \<and> j < 16 \<longrightarrow>
          (\<exists>tj. segmentReading at120 initial_state j = Some tj \<and> tj \<le> MAX_SAFE_TEMPERATURE)"
    by (simp add: at120_readings MAX_SAFE_TEMPERATURE_def)
  from checkThermalSafetyFrom_no_trip [OF agree_from_refl [OF w] _ this]
  have "\<exists>st'. checkThermalSafety at120 initial_state = Inr st' \<and>
      \<not> thermalSafetyTriggered st' \<and> serialOut st' = []"
    by (auto simp: checkThermalSafety_def initial_state_def)
  then show ?thesis by (simp add: at120_readings MAX_SAFE_TEMPERATURE_def)
qed

text \<open>The relays after a trip, for the record: the copy of part_002 leaves them at
  \<^verbatim>\<open>LOW\<close>, the level that switches an active-low relay on.\<close>

lemma checkThermalSafety_trip_relays:
  "\<exists>st'. checkThermalSafety hot2 initial_state = Inr st' \<and> relayLevel st' = replicate 16 LOW"
proof -
  have w: "wf_state initial_state" by (simp add: wf_state_def initial_state_def)
  have n: "\<forall>j. 0 \<le> j \<and> j \<le> 2 \<longrightarrow> segmentReading hot2 initial_state j \<noteq> None"
    by (simp add: hot2_readings)
  have r: "segmentReading hot2 initial_state 2 = Some 135" by (simp add: hot2_readings)
  have h: "MAX_SAFE_TEMPERATURE < 135" by (simp add: MAX_SAFE_TEMPERATURE_def)
  from checkThermalSafetyFrom_trips [OF agree_from_refl [OF w] _ _ n r h]
  show ?thesis unfolding checkThermalSafety_def by auto
qed

text \<open>The copy of \<^verbatim>\<open>deactivateAllSegments\<close> in Codigo.txt switches the relays off.\<close>

lemma printActiveSegments_relays:
  "relayLevel (printActiveSegments st) = relayLevel st \<and>
   activeSegments (printActiveSegments st) = activeSegments st"
proof -
  have "relayLevel (snd (fold printActiveStep js x)) = relayLevel (snd x) \<and>
        activeSegments (snd (fold printActiveStep js x)) = activeSegments (snd x)" for js x
    by (induction js arbitrary: x)
      (auto simp: printActiveStep_def prints_def split: prod.splits)
  from this [of "[0..<16]" "(False, prints [Str ''Active segments: ''] st)"]
  show ?thesis
    by (auto simp: printActiveSegments_def prints_def Let_def split: prod.splits)
qed

lemma deactivateAllSegments_Codigo_relays:
  assumes "wf_state st"
  shows "relayLevel (deactivateAllSegments_Codigo st) = replicate 16 HIGH \<and>
         activeSegments (deactivateAllSegments_Codigo st) = replicate 16 False"
  using assms fold_set_all [where n = 16 and st = st and v = HIGH and b = False]
  by (simp add: deactivateAllSegments_Codigo_def wf_state_def printActiveSegments_relays
      prints_def)

section \<open>Verification: section aggregator\<close>

lemma addReadings_Nil: "addReadings acc [] = acc"
  by (simp add: addReadings_def validReadings_def activeValidReadings_def)

lemma addReadings_Cons:
  "addReadings acc ((a, t) # rs) =
     addReadings
       ((if a \<and> t \<noteq> -999
         then (\<lambda>x. x\<lparr>sumActive := fadd (sumActive x) t, countActive := countActive x + 1\<rparr>)
         else (\<lambda>x. x))
        (if t \<noteq> -999 then acc\<lparr>sumAll := fadd (sumAll acc) t, countAll := countAll acc + 1\<rparr>
         else acc)) rs"
  by (simp add: addReadings_def validReadings_def activeValidReadings_def)

lemma sectionLoop:
  assumes "agree_from k st st0" and "activeSegments st = activeSegments st0" and "e < 16"
    and "\<forall>j. k \<le> j \<and> j \<le> e \<longrightarrow> segmentReading smp st0 j = Some (temp j)"
  shows "\<exists>st'. forEach [k..<Suc e] (sumStep smp) (acc, st) =
              Inr (addReadings acc (map (\<lambda>j. (activeSegments st0 ! j, temp j)) [k..<Suc e]), st') \<and>
           (\<exists>lr c. st' = st\<lparr>lastReadTime := lr, cachedTemperatures := c\<rparr>) \<and> wf_state st'"
  using assms
proof (induction "Suc e - k" arbitrary: k st acc)
  case 0
  then have up: "[k..<Suc e] = []" by simp
  have "st = st\<lparr>lastReadTime := lastReadTime st, cachedTemperatures := cachedTemperatures st\<rparr>"
    by simp
  then have "\<exists>lr c. st = st\<lparr>lastReadTime := lr, cachedTemperatures := c\<rparr>" by blast
  moreover have "wf_state st" using "0.prems"(1) by (simp add: agree_from_def)
  ultimately show ?case unfolding up by (simp add: addReadings_Nil)
next
  case (Suc n)
  then have ke: "k \<le> e" and k16: "k < 16" by simp_all
  then have up: "[k..<Suc e] = k # [Suc k..<Suc e]" by (simp add: upt_conv_Cons)
  have eq: "segmentReading smp st k = segmentReading smp st0 k"
    using Suc.prems(1) k16 by (intro segmentReading_cong) (auto simp: agree_from_def)
  from Suc.prems(4) ke have "segmentReading smp st0 k = Some (temp k)" by simp
  with eq obtain st1 where r: "readSegment smp k st = Inr (temp k, st1)"
    using segmentReading_Some by metis
  from agree_from_step [OF Suc.prems(1) k16 r] have a1: "agree_from (Suc k) st1 st0" .
  from readSegment_frame [OF k16 r] obtain lr c where
    st1: "st1 = st\<lparr>lastReadTime := (lastReadTime st)[k := lr],
                    cachedTemperatures := (cachedTemperatures st)[k := c]\<rparr>" by blast
  then have act: "activeSegments st1 = activeSegments st0" using Suc.prems(2) by simp
  define acc1 where "acc1 =
       ((if activeSegments st0 ! k \<and> temp k \<noteq> -999
         then (\<lambda>x. x\<lparr>sumActive := fadd (sumActive x) (temp k), countActive := countActive x + 1\<rparr>)
         else (\<lambda>x. x))
        (if temp k \<noteq> -999
         then acc\<lparr>sumAll := fadd (sumAll acc) (temp k), countAll := countAll acc + 1\<rparr>
         else acc))"
  have step: "sumStep smp k (acc, st) = Inr (acc1, st1)"
    using r act by (simp add: sumStep_def andThen_def acc1_def Let_def)
  have n: "n = Suc e - Suc k" using Suc.hyps(2) by simp
  have p4: "\<forall>j. Suc k \<le> j \<and> j \<le> e \<longrightarrow> segmentReading smp st0 j = Some (temp j)"
    using Suc.prems(4) by simp
  from Suc.hyps(1) [OF n a1 act Suc.prems(3) p4, of acc1]
  obtain st' lr' c' where
    l: "forEach [Suc k..<Suc e] (sumStep smp) (acc1, st1) =
          Inr (addReadings acc1 (map (\<lambda>j. (activeSegments st0 ! j, temp j)) [Suc k..<Suc e]), st')"
    and f: "st' = st1\<lparr>lastReadTime := lr', cachedTemperatures := c'\<rparr>" and w: "wf_state st'"
    by blast
  have "forEach [k..<Suc e] (sumStep smp) (acc, st) =
          Inr (addReadings acc (map (\<lambda>j. (activeSegments st0 ! j, temp j)) [k..<Suc e]), st')"
    unfolding up using step l by (simp add: andThen_def addReadings_Cons acc1_def)
  moreover have "st' = st\<lparr>lastReadTime := lr', cachedTemperatures := c'\<rparr>"
    using f st1 by simp
  ultimately show ?case using w by blast
qed

lemma sectionAverage_addReadings:
  "fst (sectionAverage secIndex
          (addReadings \<lparr>sumActive = 0, countActive = 0, sumAll = 0, countAll = 0\<rparr> rs)) =
     representative_spec rs"
  by (simp add: sectionAverage_def addReadings_def representative_spec_def mean_def Let_def)

lemma foldl_fadd_bounds:
  assumes "\<forall>x \<in> set xs. 0 \<le> x \<and> x \<le> 300"
    and "0 \<le> s" and "s \<le> 300 * real k" and "k + length xs \<le> 16"
    and "\<bar>s - S\<bar> \<le> real k * (4800 / 16777216)"
  shows "0 \<le> foldl fadd s xs \<and> foldl fadd s xs \<le> 300 * real (k + length xs) \<and>
    \<bar>foldl fadd s xs - (S + sum_list xs)\<bar> \<le> real (k + length xs) * (4800 / 16777216)"
  using assms
proof (induction xs arbitrary: s S k)
  case Nil
  then show ?case by simp
next
  case (Cons x xs)
  from Cons.prems(1) have x: "0 \<le> x" "x \<le> 300" by simp_all
  from Cons.prems(4) have k: "Suc k \<le> 16" by simp
  have lo: "0 \<le> fadd s x"
  proof -
    have "real_of_int 0 \<le> s + x" using x Cons.prems(2) by simp
    then have "real_of_int 0 \<le> f32 (s + x)" by (intro f32_ge_int) simp_all
    then show ?thesis by (simp add: fadd_def)
  qed
  have up: "s + x \<le> real_of_int (300 * int (Suc k))"
    using x Cons.prems(3) by simp
  have hi: "fadd s x \<le> 300 * real (Suc k)"
  proof -
    from up have "f32 (s + x) \<le> real_of_int (300 * int (Suc k))"
      using k by (intro f32_le_int) simp_all
    then show ?thesis by (simp add: fadd_def)
  qed
  have "s + x \<le> 4800"
  proof -
    have "real (Suc k) \<le> 16" using k by simp
    with up show ?thesis by simp
  qed
  moreover have "0 \<le> s + x" using x Cons.prems(2) by simp
  ultimately have "\<bar>s + x\<bar> / 16777216 \<le> 4800 / 16777216" by simp
  with f32_err [of "s + x"] have "\<bar>f32 (s + x) - (s + x)\<bar> \<le> 4800 / 16777216"
    by (rule order_trans)
  then have e: "\<bar>fadd s x - (s + x)\<bar> \<le> 4800 / 16777216" by (simp only: fadd_def)
  have "real (Suc k) * (4800 / 16777216) = real k * (4800 / 16777216) + 4800 / 16777216"
    by (simp add: algebra_simps)
  with e Cons.prems(5) have er: "\<bar>fadd s x - (S + x)\<bar> \<le> real (Suc k) * (4800 / 16777216)"
    by linarith
  have len: "Suc k + length xs \<le> 16" using Cons.prems(4) by simp
  have all: "\<forall>x \<in> set xs. 0 \<le> x \<and> x \<le> 300" using Cons.prems(1) by simp
  from Cons.IH [OF all lo hi len er] show ?case by (simp add: algebra_simps)
qed

text \<open>For at most 16 readings between 0 and 300 degrees the single-precision mean is
  within 1/2048 of the exact mean.\<close>

lemma mean_near_exact:
  assumes "xs \<noteq> []" and "length xs \<le> 16" and "\<forall>x \<in> set xs. 0 \<le> x \<and> x \<le> 300"
  shows "\<bar>mean xs - sum_list xs / real (length xs)\<bar> < 1 / 2048"
proof -
  define n where "n = real (length xs)"
  define s where "s = foldl fadd 0 xs"
  have n1: "1 \<le> n" using assms(1) by (cases xs) (simp_all add: n_def)
  have n16: "n \<le> 16" using assms(2) by (simp add: n_def)
  from foldl_fadd_bounds [OF assms(3), of 0 0 0] assms(2)
  have b: "0 \<le> s" "s \<le> 300 * n" "\<bar>s - sum_list xs\<bar> \<le> n * (4800 / 16777216)"
    by (simp_all add: s_def n_def)
  have fn: "float_of_int (int (length xs)) = n"
    using assms(2) f32_of_int [of "int (length xs)"] by (simp add: float_of_int_def n_def)
  have m: "mean xs = f32 (s / n)" by (simp add: mean_def fdiv_def fn s_def)
  have q0: "0 \<le> s / n" using b(1) n1 by simp
  have q1: "s / n \<le> 300" using b(2) n1 by (simp add: field_simps)
  from q0 q1 have "\<bar>s / n\<bar> \<le> 300" by (simp only: abs_of_nonneg)
  then have "\<bar>s / n\<bar> / 16777216 \<le> 300 / 16777216" by (intro divide_right_mono) simp_all
  with f32_err [of "s / n"] have e1: "\<bar>f32 (s / n) - s / n\<bar> \<le> 300 / 16777216"
    by (rule order_trans)
  have "\<bar>s / n - sum_list xs / n\<bar> = \<bar>s - sum_list xs\<bar> / n"
    using n1 by (simp add: diff_divide_distrib [symmetric])
  also have "\<dots> \<le> (n * (4800 / 16777216)) / n"
    using b(3) n1 by (intro divide_right_mono) simp_all
  also have "\<dots> = 4800 / 16777216" using n1 by simp
  finally have e2: "\<bar>s / n - sum_list xs / n\<bar> \<le> 4800 / 16777216" .
  from e1 e2 show ?thesis unfolding m n_def [symmetric] by linarith
qed

lemma updateTemperaturePWM_result:
  assumes "wf_state st" and "e < 16"
    and "\<forall>j. k \<le> j \<and> j \<le> e \<longrightarrow> segmentReading smp st j = Some (temp j)"
    and "rs = map (\<lambda>j. (activeSegments st ! j, temp j)) [k..<Suc e]"
    and "to_long (representative_spec rs) = Inr x"
    and "to_long (tempMin st) = Inr lo" and "to_long (tempMax st) = Inr hi"
    and "map_arduino x lo hi (pwmMaxValue st) (pwmMinValue st) = Inr m"
    and "pwm = constrain_int (to_int16 m) (pwmMinValue st) (pwmMaxValue st)"
  shows "\<exists>st' lr c out. updateTemperaturePWM smp secIndex k e st = Inr st' \<and>
           st' = st\<lparr>lastReadTime := lr, cachedTemperatures := c,
                    serialOut := out @ sentLine secIndex (representative_spec rs) pwm,
                    analogWrites := analogWrites st @ [(secIndex, pwm)]\<rparr>"
proof -
  let ?z = "\<lparr>sumActive = 0, countActive = 0, sumAll = 0, countAll = 0\<rparr>"
  from sectionLoop [OF agree_from_refl [OF assms(1)] refl assms(2,3), of ?z]
  obtain st1 lr c where
    l: "forEach [k..<Suc e] (sumStep smp) (?z, st) = Inr (addReadings ?z rs, st1)"
    and f: "st1 = st\<lparr>lastReadTime := lr, cachedTemperatures := c\<rparr>"
    unfolding assms(4) by blast
  obtain avg report where sa: "sectionAverage secIndex (addReadings ?z rs) = (avg, report)"
    by (cases "sectionAverage secIndex (addReadings ?z rs)") simp
  with sectionAverage_addReadings [of secIndex rs] have avg: "avg = representative_spec rs"
    by simp
  define st' where "st' =
    prints (sentLine secIndex avg pwm)
      ((prints report st1)\<lparr>analogWrites := analogWrites st @ [(secIndex, pwm)]\<rparr>)"
  have u: "updateTemperaturePWM smp secIndex k e st = Inr st'"
    using l f sa avg assms(5,6,7,8,9)
    by (simp add: updateTemperaturePWM_def andThen_def prints_def Let_def sentLine_def
        st'_def del: upt_Suc)
  have "st' = st\<lparr>lastReadTime := lr, cachedTemperatures := c,
                  serialOut := (serialOut st @ report) @ sentLine secIndex (representative_spec rs) pwm,
                  analogWrites := analogWrites st @ [(secIndex, pwm)]\<rparr>"
    by (simp add: st'_def prints_def f avg)
  with u show ?thesis by blast
qed

text \<open>C8. The representative temperature that \<^verbatim>\<open>updateTemperaturePWM\<close> uses for a
  section is chosen in this order: the mean of the readings that are active and not the
  sentinel, if there is one; otherwise the mean of the readings that are not the
  sentinel, if there is one; otherwise 25. The means are computed in single precision.
  This value is the temperature that the call reports as sent, and the call writes to
  the section's analog channel what \<^verbatim>\<open>map\<close> gives for it through the inverted PWM range,
  narrowed to an \<^verbatim>\<open>int\<close> and constrained.\<close>

theorem updateTemperaturePWM_fallback_order:
  assumes "wf_state st" and "end < 16"
    and "\<forall>j. start \<le> j \<and> j \<le> end \<longrightarrow> segmentReading smp st j = Some (temp j)"
    and "rs = map (\<lambda>j. (activeSegments st ! j, temp j)) [start..<Suc end]"
    and "to_long (representative_spec rs) = Inr x"
    and "to_long (tempMin st) = Inr lo" and "to_long (tempMax st) = Inr hi"
    and "map_arduino x lo hi (pwmMaxValue st) (pwmMinValue st) = Inr m"
    and "pwm = constrain_int (to_int16 m) (pwmMinValue st) (pwmMaxValue st)"
  shows "\<exists>st' out. updateTemperaturePWM smp secIndex start end st = Inr st' \<and>
           analogWrites st' = analogWrites st @ [(secIndex, pwm)] \<and>
           serialOut st' = out @ sentLine secIndex (representative_spec rs) pwm"
proof -
  from updateTemperaturePWM_result [OF assms, of secIndex]
  obtain st' lr c out where "updateTemperaturePWM smp secIndex start end st = Inr st'"
    and "st' = st\<lparr>lastReadTime := lr, cachedTemperatures := c,
                    serialOut := out @ sentLine secIndex (representative_spec rs) pwm,
                    analogWrites := analogWrites st @ [(secIndex, pwm)]\<rparr>"
    by blast
  then show ?thesis by simp
qed

lemma upt_0_4: "[0..<Suc 3] = [0, 1, 2, 3]"
  by (simp add: upt_rec)

lemma section0_readings:
  assumes "i \<le> 3" and "lastReadTime st = replicate 16 0"
  shows "segmentReading section0 st i = Some ([120, 90, -999, 30] ! i)"
proof -
  from assms(1) consider "i = 0" | "i = 1" | "i = 2" | "i = 3" by linarith
  then show ?thesis
    by cases (simp_all add: segmentReading_def readSegment_unfold section0_def assms(2)
        readInterval_def tableScan.simps tempTable_def tempTableSize_def Let_def float_ops)
qed

lemma allInvalid_readings:
  assumes "i \<le> 3" and "lastReadTime st = replicate 16 0"
  shows "segmentReading allInvalid st i = Some (- 999)"
  using assms
  by (simp add: segmentReading_def readSegment_unfold allInvalid_def readInterval_def Let_def)

lemma coldEnd_values:
  "f32 (10 + f32 (- (350 / 41))) = 1534501 / 1048576"
  "f32 (10 + f32 (- (60 / 41))) = 4475629 / 524288"
  "f32 (1534501 / 1048576) = 1534501 / 1048576"
  "f32 (10485759 / 1048576) = 10485759 / 1048576"
  "f32 (10485759 / 2097152) = 10485759 / 2097152"
  by (simp_all add: f32_eval)

lemma coldEnd_readings:
  assumes "i \<le> 3" and "lastReadTime st = replicate 16 0"
  shows "segmentReading coldEnd st i =
    Some ([1534501 / 1048576, 4475629 / 524288, - 999, - 999] ! i)"
proof -
  from assms(1) consider "i = 0" | "i = 1" | "i = 2" | "i = 3" by linarith
  then show ?thesis
    by cases (simp_all add: segmentReading_def readSegment_unfold coldEnd_def assms(2)
        readInterval_def tableScan.simps tempTable_def tempTableSize_def Let_def float_ops
        coldEnd_values)
qed

lemma to_long_examples:
  "to_long 0 = Inr 0" "to_long 280 = Inr 280" "to_long 90 = Inr 90" "to_long 80 = Inr 80"
  "to_long 25 = Inr 25" "to_long (10485759 / 2097152) = Inr 4"
  by (simp_all add: to_long_def truncated_def)

lemma map_examples:
  "map_arduino 90 0 280 255 0 = Inr 174" "map_arduino 80 0 280 255 0 = Inr 183"
  "map_arduino 25 0 280 255 0 = Inr 233" "map_arduino 4 0 280 255 0 = Inr 252"
  by (simp_all add: map_arduino_def to_int32_def c_div_def Let_def)

lemma representative_examples:
  "representative_spec [(False, 120), (True, 90), (False, - 999), (False, 30)] = 90"
  "representative_spec [(False, 120), (False, 90), (False, - 999), (False, 30)] = 80"
  "representative_spec [(False, - 999), (False, - 999), (False, - 999), (False, - 999)] = 25"
  "representative_spec [(True, 1534501 / 1048576), (True, 4475629 / 524288), (False, - 999),
     (False, - 999)] = 10485759 / 2097152"
  by (simp_all add: representative_spec_def activeValidReadings_def validReadings_def mean_def
      float_ops coldEnd_values)

theorem updateTemperaturePWM_fallback_order_witness:
  "(\<exists>st' out. updateTemperaturePWM section0 0 0 3 oneActive = Inr st' \<and>
      analogWrites st' = [(0, 174)] \<and> serialOut st' = out @ sentLine 0 90 174) \<and>
   (\<exists>st' out. updateTemperaturePWM section0 0 0 3 initial_state = Inr st' \<and>
      analogWrites st' = [(0, 183)] \<and> serialOut st' = out @ sentLine 0 80 183) \<and>
   (\<exists>st' out. updateTemperaturePWM allInvalid 0 0 3 initial_state = Inr st' \<and>
      analogWrites st' = [(0, 233)] \<and> serialOut st' = out @ sentLine 0 25 233) \<and>
   (\<exists>st' out. updateTemperaturePWM coldEnd 0 0 3 twoActive = Inr st' \<and>
      analogWrites st' = [(0, 252)] \<and>
      serialOut st' = out @ sentLine 0 (10485759 / 2097152) 252)"
proof -
  have w: "wf_state oneActive" "wf_state initial_state" "wf_state twoActive"
    by (simp_all add: wf_state_def oneActive_def twoActive_def initial_state_def)
  have l: "lastReadTime oneActive = replicate 16 0" "lastReadTime initial_state = replicate 16 0"
    "lastReadTime twoActive = replicate 16 0"
    by (simp_all add: oneActive_def twoActive_def initial_state_def)
  have c: "tempMin oneActive = 0" "tempMax oneActive = 280" "pwmMinValue oneActive = 0"
    "pwmMaxValue oneActive = 255" "analogWrites oneActive = []"
    "tempMin initial_state = 0" "tempMax initial_state = 280" "pwmMinValue initial_state = 0"
    "pwmMaxValue initial_state = 255" "analogWrites initial_state = []"
    "tempMin twoActive = 0" "tempMax twoActive = 280" "pwmMinValue twoActive = 0"
    "pwmMaxValue twoActive = 255" "analogWrites twoActive = []"
    by (simp_all add: oneActive_def twoActive_def initial_state_def)
  have k: "constrain_int (to_int16 174) 0 255 = 174" "constrain_int (to_int16 183) 0 255 = 183"
    "constrain_int (to_int16 233) 0 255 = 233" "constrain_int (to_int16 252) 0 255 = 252"
    by (simp_all add: constrain_int_def to_int16_def)
  have r1: "\<forall>j. 0 \<le> j \<and> j \<le> 3 \<longrightarrow>
      segmentReading section0 oneActive j = Some ([120, 90, -999, 30] ! j)"
    by (simp add: section0_readings l)
  have rs1: "[(False, 120), (True, 90), (False, - 999), (False, 30 :: real)] =
      map (\<lambda>j. (activeSegments oneActive ! j, [120, 90, -999, 30] ! j)) [0..<Suc 3]"
    unfolding upt_0_4 by (simp add: oneActive_def initial_state_def)
  have 1: "\<exists>st' out. updateTemperaturePWM section0 0 0 3 oneActive = Inr st' \<and>
      analogWrites st' = [(0, 174)] \<and> serialOut st' = out @ sentLine 0 90 174"
    using updateTemperaturePWM_fallback_order [OF w(1) _ r1 rs1, of 90 0 280 174 174 0]
    by (simp add: c k to_long_examples map_examples representative_examples)
  have r2: "\<forall>j. 0 \<le> j \<and> j \<le> 3 \<longrightarrow>
      segmentReading section0 initial_state j = Some ([120, 90, -999, 30] ! j)"
    by (simp add: section0_readings l)
  have rs2: "[(False, 120), (False, 90), (False, - 999), (False, 30 :: real)] =
      map (\<lambda>j. (activeSegments initial_state ! j, [120, 90, -999, 30] ! j)) [0..<Suc 3]"
    unfolding upt_0_4 by (simp add: initial_state_def)
  have 2: "\<exists>st' out. updateTemperaturePWM section0 0 0 3 initial_state = Inr st' \<and>
      analogWrites st' = [(0, 183)] \<and> serialOut st' = out @ sentLine 0 80 183"
    using updateTemperaturePWM_fallback_order [OF w(2) _ r2 rs2, of 80 0 280 183 183 0]
    by (simp add: c k to_long_examples map_examples representative_examples)
  have r3: "\<forall>j. 0 \<le> j \<and> j \<le> 3 \<longrightarrow>
      segmentReading allInvalid initial_state j = Some ((\<lambda>j. - 999) j)"
    by (simp add: allInvalid_readings l)
  have rs3: "[(False, - 999), (False, - 999), (False, - 999), (False, - 999 :: real)] =
      map (\<lambda>j. (activeSegments initial_state ! j, (\<lambda>j. - 999) j)) [0..<Suc 3]"
    unfolding upt_0_4 by (simp add: initial_state_def)
  have 3: "\<exists>st' out. updateTemperaturePWM allInvalid 0 0 3 initial_state = Inr st' \<and>
      analogWrites st' = [(0, 233)] \<and> serialOut st' = out @ sentLine 0 25 233"
    using updateTemperaturePWM_fallback_order [OF w(2) _ r3 rs3, of 25 0 280 233 233 0]
    by (simp add: c k to_long_examples map_examples representative_examples)
  have r4: "\<forall>j. 0 \<le> j \<and> j \<le> 3 \<longrightarrow>
      segmentReading coldEnd twoActive j =
        Some ([1534501 / 1048576, 4475629 / 524288, - 999, - 999] ! j)"
    by (simp add: coldEnd_readings l)
  have rs4: "[(True, 1534501 / 1048576), (True, 4475629 / 524288), (False, - 999),
       (False, - 999 :: real)] =
      map (\<lambda>j. (activeSegments twoActive ! j,
                 [1534501 / 1048576, 4475629 / 524288, - 999, - 999] ! j)) [0..<Suc 3]"
    unfolding upt_0_4 by (simp add: twoActive_def initial_state_def)
  have 4: "\<exists>st' out. updateTemperaturePWM coldEnd 0 0 3 twoActive = Inr st' \<and>
      analogWrites st' = [(0, 252)] \<and>
      serialOut st' = out @ sentLine 0 (10485759 / 2097152) 252"
    using updateTemperaturePWM_fallback_order [OF w(3) _ r4 rs4, of 4 0 280 252 252 0]
    by (simp add: c k to_long_examples map_examples representative_examples)
  from 1 2 3 4 show ?thesis by blast
qed

section \<open>Verification: command processing\<close>

lemma startsWith_append: "startsWith s p \<longleftrightarrow> (\<exists>cs. s = p @ cs)"
proof
  assume "startsWith s p"
  then have "s = p @ drop (length p) s"
    by (metis append_take_drop_id startsWith_def)
  then show "\<exists>cs. s = p @ cs" ..
next
  assume "\<exists>cs. s = p @ cs"
  then show "startsWith s p" by (auto simp: startsWith_def)
qed

lemma ON_branch:
  assumes "startsWith c ''ON''"
  shows "c \<noteq> ''DEBUG ON''" "c \<noteq> ''DEBUG OFF''" "c \<noteq> ''STATUS''"
    "\<not> startsWith c ''SET_PWM_RANGE''" "c \<noteq> ''OFF ALL''"
  using assms by (auto simp: startsWith_append)

lemma OFF_branch:
  assumes "startsWith c ''OFF''"
  shows "c \<noteq> ''DEBUG ON''" "c \<noteq> ''DEBUG OFF''" "c \<noteq> ''STATUS''"
    "\<not> startsWith c ''SET_PWM_RANGE''" "c \<noteq> ''ON ALL''" "\<not> startsWith c ''ON''"
  using assms by (auto simp: startsWith_append)

text \<open>What the guard of the command processors does reject: every \<^verbatim>\<open>ON\<close> and \<^verbatim>\<open>OFF\<close>
  command whose number, as stored in the 16-bit \<^verbatim>\<open>segmentNumber\<close>, is outside 1..16.
  The reply is the error line and nothing else changes.\<close>

lemma narrowed_segment_number_rejected:
  assumes "n < 1 \<or> 16 < n"
  shows
    "(serialRx st = line # rest \<and> startsWith (trim line) ''ON'' \<and> trim line \<noteq> ''ON ALL'' \<and>
        to_int16 (toInt (substring 3 (trim line))) = n \<longrightarrow>
      processSerialCommands lib smp st =
        Inr (st\<lparr>serialRx := rest, serialOut := serialOut st @ echoLine (trim line) @
               [Str ''Error: Invalid segment number. Use HELP to see commands.'', NL]\<rparr>)) \<and>
     (serialRx st = line # rest \<and> startsWith (trim line) ''OFF'' \<and> trim line \<noteq> ''OFF ALL'' \<and>
        to_int16 (toInt (substring 4 (trim line))) = n \<longrightarrow>
      processSerialCommands lib smp st =
        Inr (st\<lparr>serialRx := rest, serialOut := serialOut st @ echoLine (trim line) @
               [Str ''Error: Invalid segment number. Use HELP to see commands.'', NL]\<rparr>)) \<and>
     (startsWith (trim cmd) ''ON'' \<and> trim cmd \<noteq> ''ON ALL'' \<and>
        to_int16 (toInt (substring 3 (trim cmd))) = n \<longrightarrow>
      processExternalCommand lib smp cmd st =
        Inr (st\<lparr>serialOut := serialOut st @
               [Str ''Error: Invalid segment number (Duet).'', NL]\<rparr>)) \<and>
     (startsWith (trim cmd) ''OFF'' \<and> trim cmd \<noteq> ''OFF ALL'' \<and>
        to_int16 (toInt (substring 4 (trim cmd))) = n \<longrightarrow>
      processExternalCommand lib smp cmd st =
        Inr (st\<lparr>serialOut := serialOut st @
               [Str ''Error: Invalid segment number (Duet).'', NL]\<rparr>)) \<and>
     activateSegment n st = st \<and> deactivateSegment n st = st"
proof (intro conjI impI)
  show "activateSegment n st = st" using assms by (auto simp: activateSegment_def)
  show "deactivateSegment n st = st" using assms by (auto simp: deactivateSegment_def)
next
  assume a: "serialRx st = line # rest \<and> startsWith (trim line) ''ON'' \<and>
    trim line \<noteq> ''ON ALL'' \<and> to_int16 (toInt (substring 3 (trim line))) = n"
  then have s: "startsWith (trim line) ''ON''" by simp
  show "processSerialCommands lib smp st =
        Inr (st\<lparr>serialRx := rest, serialOut := serialOut st @ echoLine (trim line) @
               [Str ''Error: Invalid segment number. Use HELP to see commands.'', NL]\<rparr>)"
    using a assms ON_branch [OF s]
    by (auto simp: processSerialCommands_def Let_def prints_def echoLine_def)
next
  assume a: "serialRx st = line # rest \<and> startsWith (trim line) ''OFF'' \<and>
    trim line \<noteq> ''OFF ALL'' \<and> to_int16 (toInt (substring 4 (trim line))) = n"
  then have s: "startsWith (trim line) ''OFF''" by simp
  show "processSerialCommands lib smp st =
        Inr (st\<lparr>serialRx := rest, serialOut := serialOut st @ echoLine (trim line) @
               [Str ''Error: Invalid segment number. Use HELP to see commands.'', NL]\<rparr>)"
    using a assms OFF_branch [OF s]
    by (auto simp: processSerialCommands_def Let_def prints_def echoLine_def)
next
  assume a: "startsWith (trim cmd) ''ON'' \<and> trim cmd \<noteq> ''ON ALL'' \<and>
    to_int16 (toInt (substring 3 (trim cmd))) = n"
  then have s: "startsWith (trim cmd) ''ON''" by simp
  show "processExternalCommand lib smp cmd st =
        Inr (st\<lparr>serialOut := serialOut st @
               [Str ''Error: Invalid segment number (Duet).'', NL]\<rparr>)"
    using a assms ON_branch [OF s]
    by (auto simp: processExternalCommand_def Let_def prints_def)
next
  assume a: "startsWith (trim cmd) ''OFF'' \<and> trim cmd \<noteq> ''OFF ALL'' \<and>
    to_int16 (toInt (substring 4 (trim cmd))) = n"
  then have s: "startsWith (trim cmd) ''OFF''" by simp
  show "processExternalCommand lib smp cmd st =
        Inr (st\<lparr>serialOut := serialOut st @
               [Str ''Error: Invalid segment number (Duet).'', NL]\<rparr>)"
    using a assms OFF_branch [OF s]
    by (auto simp: processExternalCommand_def Let_def prints_def)
qed

lemmas text_eval = trim_def isspace_def startsWith_def substring_def sampleLib_def toInt_def
  atol_def to_int32_def to_int16_def Let_def

text \<open>The examples of the specification, 0 and 17, are rejected.\<close>

lemma segment_numbers_0_and_17_rejected:
  "processSerialCommands sampleLib quietSampling (initial_state\<lparr>serialRx := [''ON 0'']\<rparr>) =
     Inr (initial_state\<lparr>serialOut := echoLine ''ON 0'' @
            [Str ''Error: Invalid segment number. Use HELP to see commands.'', NL]\<rparr>) \<and>
   processSerialCommands sampleLib quietSampling (initial_state\<lparr>serialRx := [''OFF 17'']\<rparr>) =
     Inr (initial_state\<lparr>serialOut := echoLine ''OFF 17'' @
            [Str ''Error: Invalid segment number. Use HELP to see commands.'', NL]\<rparr>) \<and>
   processExternalCommand sampleLib quietSampling ''ON 17'' initial_state =
     Inr (initial_state\<lparr>serialOut := [Str ''Error: Invalid segment number (Duet).'', NL]\<rparr>) \<and>
   processExternalCommand sampleLib quietSampling ''OFF 0'' initial_state =
     Inr (initial_state\<lparr>serialOut := [Str ''Error: Invalid segment number (Duet).'', NL]\<rparr>)"
proof -
  have 1: "processSerialCommands sampleLib quietSampling (initial_state\<lparr>serialRx := [''ON 0'']\<rparr>) =
     Inr (initial_state\<lparr>serialOut := echoLine ''ON 0'' @
            [Str ''Error: Invalid segment number. Use HELP to see commands.'', NL]\<rparr>)"
    using narrowed_segment_number_rejected [where n = 0 and st = "initial_state\<lparr>serialRx := [''ON 0'']\<rparr>"
        and line = "''ON 0''" and rest = "[]" and lib = sampleLib and smp = quietSampling]
    by (simp add: text_eval initial_state_def)
  have 2: "processSerialCommands sampleLib quietSampling (initial_state\<lparr>serialRx := [''OFF 17'']\<rparr>) =
     Inr (initial_state\<lparr>serialOut := echoLine ''OFF 17'' @
            [Str ''Error: Invalid segment number. Use HELP to see commands.'', NL]\<rparr>)"
    using narrowed_segment_number_rejected [where n = 17 and st = "initial_state\<lparr>serialRx := [''OFF 17'']\<rparr>"
        and line = "''OFF 17''" and rest = "[]" and lib = sampleLib and smp = quietSampling]
    by (simp add: text_eval initial_state_def)
  have 3: "processExternalCommand sampleLib quietSampling ''ON 17'' initial_state =
     Inr (initial_state\<lparr>serialOut := [Str ''Error: Invalid segment number (Duet).'', NL]\<rparr>)"
    using narrowed_segment_number_rejected [where n = 17 and st = initial_state and cmd = "''ON 17''"
        and lib = sampleLib and smp = quietSampling]
    by (simp add: text_eval initial_state_def)
  have 4: "processExternalCommand sampleLib quietSampling ''OFF 0'' initial_state =
     Inr (initial_state\<lparr>serialOut := [Str ''Error: Invalid segment number (Duet).'', NL]\<rparr>)"
    using narrowed_segment_number_rejected [where n = 0 and st = initial_state and cmd = "''OFF 0''"
        and lib = sampleLib and smp = quietSampling]
    by (simp add: text_eval initial_state_def)
  from 1 2 3 4 show ?thesis by blast
qed

lemma activateSegment_first:
  assumes "activeSegments st = replicate 16 False"
  shows "activateSegment 1 st =
     st\<lparr>relayLevel := (relayLevel st)[0 := LOW],
        activeSegments := (replicate 16 False)[0 := True],
        serialOut := serialOut st @
          [Str ''Segment activated: '', Num 1, NL, Str ''Active segments: '', Num 1, NL]\<rparr>"
  using assms
  by (simp add: activateSegment_def printActiveSegments_def printActiveStep_def prints_def
      upt_rec [of 0] upt_rec [of "Suc _"] numeral_nat Let_def)

text \<open>C9 (defect of the code). The claim is that \<^verbatim>\<open>ON n\<close> and \<^verbatim>\<open>OFF n\<close> are rejected for
  every segment number \<^verbatim>\<open>n\<close> outside 1..16. The number in the command text is converted
  to a \<^verbatim>\<open>long\<close> and stored in the 16-bit \<^verbatim>\<open>int segmentNumber\<close> before the guard
  compares it: the command \<^verbatim>\<open>ON 65537\<close>, on either command channel, passes the guard as
  segment 1, and segment 1 is switched on.\<close>

theorem wrapped_segment_number_accepted:
  "toInt ''65537'' = 65537 \<and> to_int16 (toInt ''65537'') = 1 \<and>
   processSerialCommands sampleLib quietSampling (initial_state\<lparr>serialRx := [''ON 65537'']\<rparr>) =
     Inr (initial_state\<lparr>relayLevel := (replicate 16 HIGH)[0 := LOW],
            activeSegments := (replicate 16 False)[0 := True],
            serialOut := echoLine ''ON 65537'' @
              [Str ''Segment activated: '', Num 1, NL, Str ''Active segments: '', Num 1, NL,
               Str ''Segment '', Num 1, Str '' activated.'', NL]\<rparr>) \<and>
   processExternalCommand sampleLib quietSampling ''ON 65537'' initial_state =
     Inr (initial_state\<lparr>relayLevel := (replicate 16 HIGH)[0 := LOW],
            activeSegments := (replicate 16 False)[0 := True],
            serialOut :=
              [Str ''Segment activated: '', Num 1, NL, Str ''Active segments: '', Num 1, NL,
               Str ''Segment '', Num 1, Str '' activated (Duet).'', NL]\<rparr>)"
proof -
  have t: "toInt ''65537'' = 65537" by (simp add: text_eval)
  have n: "to_int16 65537 = 1" by (simp add: to_int16_def)
  have c: "trim ''ON 65537'' = ''ON 65537''" "substring 3 ''ON 65537'' = ''65537''"
    "startsWith ''ON 65537'' ''ON''" "\<not> startsWith ''ON 65537'' ''SET_PWM_RANGE''"
    by (simp_all add: trim_def isspace_def substring_def startsWith_def)
  have i: "activeSegments initial_state = replicate 16 False"
    "relayLevel initial_state = replicate 16 HIGH" "serialOut initial_state = []"
    "\<not> thermalSafetyTriggered initial_state"
    by (simp_all add: initial_state_def)
  have 1: "processSerialCommands sampleLib quietSampling
      (initial_state\<lparr>serialRx := [''ON 65537'']\<rparr>) =
     Inr (initial_state\<lparr>relayLevel := (replicate 16 HIGH)[0 := LOW],
            activeSegments := (replicate 16 False)[0 := True],
            serialOut := echoLine ''ON 65537'' @
              [Str ''Segment activated: '', Num 1, NL, Str ''Active segments: '', Num 1, NL,
               Str ''Segment '', Num 1, Str '' activated.'', NL]\<rparr>)"
    unfolding processSerialCommands_def
    by (simp add: c t n i activateSegment_first echoLine_def prints_def Let_def)
       (simp add: initial_state_def)
  have 2: "processExternalCommand sampleLib quietSampling ''ON 65537'' initial_state =
     Inr (initial_state\<lparr>relayLevel := (replicate 16 HIGH)[0 := LOW],
            activeSegments := (replicate 16 False)[0 := True],
            serialOut :=
              [Str ''Segment activated: '', Num 1, NL, Str ''Active segments: '', Num 1, NL,
               Str ''Segment '', Num 1, Str '' activated (Duet).'', NL]\<rparr>)"
    unfolding processExternalCommand_def
    by (simp add: c t n i activateSegment_first prints_def Let_def)
  from t n 1 2 show ?thesis by simp
qed

section \<open>Verification: the control tick\<close>

subsection \<open>What leaves the analog writes alone\<close>

lemma andThen_Inr: "andThen r f = Inr y \<longleftrightarrow> (\<exists>x. r = Inr x \<and> f x = Inr y)"
  by (cases r) (simp_all add: andThen_def)

lemma forEach_invariant:
  assumes "forEach js body s = Inr s'" and "P s"
    and "\<And>i x y. P x \<Longrightarrow> body i x = Inr y \<Longrightarrow> P y"
  shows "P s'"
  using assms(1,2)
proof (induction js arbitrary: s)
  case Nil
  then show ?case by simp
next
  case (Cons j js)
  from Cons.prems(1) obtain x where x: "body j s = Inr x" "forEach js body x = Inr s'"
    by (auto simp: andThen_Inr)
  from assms(3) [OF Cons.prems(2) x(1)] have "P x" .
  with Cons.IH x(2) show ?case by blast
qed

lemma fold_keeps:
  assumes "\<And>i x. g (f i x) = g x"
  shows "g (fold f js s) = g s"
  by (induction js arbitrary: s) (simp_all add: assms)

lemma readSegment_writes:
  "readSegment smp i st = Inr (t, st1) \<Longrightarrow> analogWrites st1 = analogWrites st"
  by (auto simp: readSegment_def readTemperature_def Let_def split: if_splits)

lemma prints_writes [simp]: "analogWrites (prints xs st) = analogWrites st"
  by (simp add: prints_def)

lemma printActiveSegments_writes [simp]:
  "analogWrites (printActiveSegments st) = analogWrites st"
proof -
  have "analogWrites (snd (fold printActiveStep js x)) = analogWrites (snd x)" for js x
    by (rule fold_keeps [where g = "\<lambda>x. analogWrites (snd x)"])
      (simp add: printActiveStep_def split: prod.splits)
  from this [of "[0..<16]" "(False, prints [Str ''Active segments: ''] st)"]
  show ?thesis
    by (auto simp: printActiveSegments_def Let_def split: prod.splits)
qed

lemma set_all_writes:
  "analogWrites (fold (\<lambda>i s. s\<lparr>relayLevel := (relayLevel s)[i := v],
        activeSegments := (activeSegments s)[i := b]\<rparr>) js st) = analogWrites st"
  by (rule fold_keeps) simp

lemma segment_switch_writes [simp]:
  "analogWrites (deactivateAllSegments st) = analogWrites st"
  "analogWrites (activateAllSegments st) = analogWrites st"
  "analogWrites (activateSegment n st) = analogWrites st"
  "analogWrites (deactivateSegment n st) = analogWrites st"
  "analogWrites (resetThermalSafety st) = analogWrites st"
  "analogWrites (printHelp st) = analogWrites st"
  "analogWrites (configurePWMRange a b c d st) = analogWrites st"
  by (simp_all add: deactivateAllSegments_def activateAllSegments_def set_all_writes
      activateSegment_def deactivateSegment_def resetThermalSafety_def printHelp_def
      configurePWMRange_def Let_def)

lemma printSystemStatus_writes:
  assumes "printSystemStatus smp st = Inr st'"
  shows "analogWrites st' = analogWrites st"
proof -
  from assms obtain s1 s2 s3 where
    a: "forEach [0..<16] (statusSegmentStep smp) s1 = Inr s2"
    and b: "forEach [0..<4] setpointStep s2 = Inr s3"
    and c: "analogWrites s1 = analogWrites st" "analogWrites st' = analogWrites s3"
    by (auto simp: printSystemStatus_def Let_def andThen_Inr)
  have "analogWrites s2 = analogWrites st"
    by (rule forEach_invariant [OF a, where P = "\<lambda>s. analogWrites s = analogWrites st"])
      (auto simp: c statusSegmentStep_def Let_def andThen_Inr dest!: readSegment_writes)
  then have "analogWrites s3 = analogWrites st"
    by (intro forEach_invariant [OF b, where P = "\<lambda>s. analogWrites s = analogWrites st"])
      (auto simp: setpointStep_def)
  with c show ?thesis by simp
qed

lemma processSerialCommands_writes:
  assumes "processSerialCommands lib smp st = Inr st'"
  shows "analogWrites st' = analogWrites st"
proof (cases "serialRx st")
  case Nil
  with assms show ?thesis by (simp add: processSerialCommands_def)
next
  case (Cons line rest)
  with assms show ?thesis
    by (auto simp: processSerialCommands_def Let_def split: if_splits prod.splits
        dest!: printSystemStatus_writes)
qed

lemma processExternalCommand_writes:
  assumes "processExternalCommand lib smp cmd st = Inr st'"
  shows "analogWrites st' = analogWrites st"
  using assms
  by (auto simp: processExternalCommand_def Let_def split: if_splits
      dest!: printSystemStatus_writes)

lemma externalInput_writes:
  assumes "externalInput lib env st = Inr st'"
  shows "analogWrites st' = analogWrites st"
proof (cases "serial1Rx st")
  case Nil
  with assms show ?thesis by (simp add: externalInput_def)
next
  case (Cons line rest)
  with assms show ?thesis
    by (auto simp: externalInput_def Let_def dest!: processExternalCommand_writes)
qed

lemma controlHeating_writes:
  assumes "controlHeating smp secIndex k e st = Inr st'"
  shows "analogWrites st' = analogWrites st"
proof -
  from assms obtain sum count s1 s2 hon hoff where
    a: "forEach [k..<Suc e] (heatSumStep smp) ((0, 0), st) = Inr ((sum, count), s1)"
    and b: "forEach [k..<Suc e] (heatSwitchStep hon hoff) s1 = Inr s2"
    and c: "analogWrites st' = analogWrites s2"
    by (auto simp: controlHeating_def Let_def andThen_Inr simp del: upt_Suc)
  have "analogWrites (snd ((sum, count), s1)) = analogWrites st"
    by (rule forEach_invariant [OF a, where P = "\<lambda>x. analogWrites (snd x) = analogWrites st"])
      (auto simp: heatSumStep_def andThen_Inr split: if_splits dest!: readSegment_writes)
  then have "analogWrites s1 = analogWrites st" by simp
  then have "analogWrites s2 = analogWrites st"
    by (intro forEach_invariant [OF b, where P = "\<lambda>s. analogWrites s = analogWrites st"])
      (auto simp: heatSwitchStep_def split: if_splits)
  with c show ?thesis by simp
qed

lemma calculatePID_writes:
  "calculatePID now i cur tgt st = (out, st') \<Longrightarrow> analogWrites st' = analogWrites st"
  by (auto simp: calculatePID_def Let_def)

lemma andThenE:
  assumes "andThen r f = Inr y"
  obtains x where "r = Inr x" and "f x = Inr y"
  using assms by (auto simp: andThen_Inr)

lemma pidStep_writes:
  assumes "pidStep smp clk secIndex i st = Inr st'"
  shows "analogWrites st' = analogWrites st"
proof (cases "activeSegments st ! i")
  case False
  with assms show ?thesis by (simp add: pidStep_def)
next
  case True
  with assms have "andThen (readSegment smp i st) (\<lambda>(currentTemp, st1).
          let target = targetTemp st1 ! secIndex;
              (pidOutput, st2) = calculatePID (clk i) i currentTemp target st1;
              st3 = (if fl_greater pidOutput PID_OUTPUT_THRESHOLD
                     then st2\<lparr>relayLevel := (relayLevel st2)[i := LOW]\<rparr>
                     else st2\<lparr>relayLevel := (relayLevel st2)[i := HIGH]\<rparr>)
          in Inr (prints [Str ''Segment '', Num (int i + 1), Str '' | Current Temp: '',
                          Flt (Fin currentTemp), Str (degC @ '' | Setpoint: ''),
                          Flt (Fin target), Str (degC @ '' | PID Output: ''),
                          Flt pidOutput, NL] st3)) = Inr st'"
    by (simp add: pidStep_def)
  then show ?thesis
  proof (rule andThenE)
    fix x
    assume r: "readSegment smp i st = Inr x"
      and k: "(case x of (currentTemp, st1) \<Rightarrow>
          let target = targetTemp st1 ! secIndex;
              (pidOutput, st2) = calculatePID (clk i) i currentTemp target st1;
              st3 = (if fl_greater pidOutput PID_OUTPUT_THRESHOLD
                     then st2\<lparr>relayLevel := (relayLevel st2)[i := LOW]\<rparr>
                     else st2\<lparr>relayLevel := (relayLevel st2)[i := HIGH]\<rparr>)
          in Inr (prints [Str ''Segment '', Num (int i + 1), Str '' | Current Temp: '',
                          Flt (Fin currentTemp), Str (degC @ '' | Setpoint: ''),
                          Flt (Fin target), Str (degC @ '' | PID Output: ''),
                          Flt pidOutput, NL] st3)) = Inr st'"
    obtain cur s1 where x: "x = (cur, s1)" by (cases x)
    obtain out s2 where c: "calculatePID (clk i) i cur (targetTemp s1 ! secIndex) s1 = (out, s2)"
      by (cases "calculatePID (clk i) i cur (targetTemp s1 ! secIndex) s1") simp
    from k x c have "analogWrites st' = analogWrites s2"
      by (auto simp: Let_def split: if_splits)
    with calculatePID_writes [OF c] readSegment_writes [OF r [unfolded x]]
    show ?thesis by simp
  qed
qed

lemma controlHeatingWithPID_writes:
  assumes "controlHeatingWithPID smp clk secIndex k e st = Inr st'"
  shows "analogWrites st' = analogWrites st"
  using assms unfolding controlHeatingWithPID_def
  by (rule forEach_invariant [where P = "\<lambda>s. analogWrites s = analogWrites st"])
    (auto dest: pidStep_writes)

lemma checkThermalSafetyFrom_writes:
  "checkThermalSafetyFrom smp i st = Inr st' \<Longrightarrow> analogWrites st' = analogWrites st"
proof (induction smp i st rule: checkThermalSafetyFrom.induct)
  case (1 smp i st)
  show ?case
  proof (cases "i < 16")
    case False
    with "1.prems" show ?thesis by (subst (asm) checkThermalSafetyFrom.simps) simp
  next
    case True
    with "1.prems" obtain temp st1 where r: "readSegment smp i st = Inr (temp, st1)"
      and k: "(if temp > MAX_SAFE_TEMPERATURE then
            Inr (prints [Str ''ALERT: Critical temperature detected in segment '',
                         Num (int i + 1), Str '' ('', Flt (Fin temp),
                         Str (degC @ ''). All segments deactivated!''), NL]
                   (deactivateAllSegments (st1\<lparr>thermalSafetyTriggered := True\<rparr>)))
          else checkThermalSafetyFrom smp (i + 1) st1) = Inr st'"
      by (subst (asm) checkThermalSafetyFrom.simps) (auto simp: andThen_Inr)
    from readSegment_writes [OF r] have w: "analogWrites st1 = analogWrites st" .
    show ?thesis
    proof (cases "temp > MAX_SAFE_TEMPERATURE")
      case True
      with k w show ?thesis by auto
    next
      case False
      with k have "checkThermalSafetyFrom smp (i + 1) st1 = Inr st'" by simp
      from "1.IH" [OF True False this] w
      show ?thesis by simp
    qed
  qed
qed

lemma debugMonitor_writes:
  assumes "debugMonitor smp st = Inr st'"
  shows "analogWrites st' = analogWrites st"
proof -
  from assms obtain s1 s2 where
    a: "forEach [0..<16] (debugSegmentStep smp)
          (prints [Str ''=== System Monitoring ==='', NL] st) = Inr s1"
    and b: "forEach [0..<4] setpointStep s1 = Inr s2"
    and c: "analogWrites st' = analogWrites s2"
    by (auto simp: debugMonitor_def andThen_Inr)
  have "analogWrites s1 = analogWrites st"
    by (rule forEach_invariant [OF a, where P = "\<lambda>s. analogWrites s = analogWrites st"])
      (auto simp: debugSegmentStep_def andThen_Inr dest!: readSegment_writes)
  then have "analogWrites s2 = analogWrites st"
    by (intro forEach_invariant [OF b, where P = "\<lambda>s. analogWrites s = analogWrites st"])
      (auto simp: setpointStep_def)
  with c show ?thesis by simp
qed

lemma printActiveSegmentsPeriodically_writes [simp]:
  "analogWrites (printActiveSegmentsPeriodically now st) = analogWrites st"
  by (simp add: printActiveSegmentsPeriodically_def)

lemma updateTemperaturePWM_writes:
  assumes "updateTemperaturePWM smp secIndex k e st = Inr st'"
  shows "\<exists>v. analogWrites st' = analogWrites st @ [(secIndex, v)]"
proof -
  let ?z = "\<lparr>sumActive = 0, countActive = 0, sumAll = 0, countAll = 0\<rparr>"
  from assms obtain x where a': "forEach [k..<Suc e] (sumStep smp) (?z, st) = Inr x"
    and k: "(\<lambda>(acc, st1).
          let (avgTemp, report) = sectionAverage secIndex acc;
              st2 = prints report st1
          in
            andThen (to_long avgTemp) (\<lambda>x.
            andThen (to_long (tempMin st2)) (\<lambda>in_min.
            andThen (to_long (tempMax st2)) (\<lambda>in_max.
            andThen (map_arduino x in_min in_max (pwmMaxValue st2) (pwmMinValue st2))
            (\<lambda>m.
               let pwmValue = constrain_int (to_int16 m) (pwmMinValue st2) (pwmMaxValue st2);
                   st3 = st2\<lparr>analogWrites := analogWrites st2 @ [(secIndex, pwmValue)]\<rparr>
               in Inr (prints [Str ''Sec '', Num (int secIndex + 1), Str '' Avg Temp Sent: '',
                               Flt (Fin avgTemp), Str (degC @ '' -> PWM: ''), Num pwmValue, NL]
                         st3)))))) x = Inr st'"
    unfolding updateTemperaturePWM_def andThen_Inr by blast
  obtain acc s1 where x: "x = (acc, s1)" by (cases x)
  obtain avg report where sa: "sectionAverage secIndex acc = (avg, report)"
    by (cases "sectionAverage secIndex acc")
  from k x sa obtain v where
    c: "analogWrites st' = analogWrites s1 @ [(secIndex, v)]"
    by (auto simp: Let_def andThen_Inr prints_def)
  have "analogWrites (snd x) = analogWrites st"
    by (rule forEach_invariant [OF a', where P = "\<lambda>x. analogWrites (snd x) = analogWrites st"])
      (auto simp: sumStep_def andThen_Inr Let_def split: if_splits dest!: readSegment_writes)
  with c x show ?thesis by simp
qed

lemma updateSectionStep_writes:
  assumes "updateSectionStep env i st = Inr st'"
  shows "\<exists>v. analogWrites st' = analogWrites st @ [(i, v)]"
proof -
  from assms obtain s1 where
    a: "updateTemperaturePWM (pwmSamples env) i (i * 4) (i * 4 + 3) st = Inr s1"
    and b: "controlHeating (heatSamples env) i (i * 4) (i * 4 + 3) s1 = Inr st'"
    by (auto simp: updateSectionStep_def andThen_Inr)
  from updateTemperaturePWM_writes [OF a] controlHeating_writes [OF b]
  show ?thesis by simp
qed

lemma updateAllSections_writes:
  assumes "updateAllSections env st = Inr st'"
  shows "\<exists>v0 v1 v2 v3. analogWrites st' = analogWrites st @ [(0, v0), (1, v1), (2, v2), (3, v3)]"
proof -
  have u: "[0..<4] = [0, 1, 2, 3]" by (simp add: upt_rec)
  from assms obtain s0 s1 s2 where
    "updateSectionStep env 0 st = Inr s0" "updateSectionStep env 1 s0 = Inr s1"
    "updateSectionStep env 2 s1 = Inr s2" "updateSectionStep env 3 s2 = Inr st'"
    unfolding updateAllSections_def u by (auto simp: andThen_Inr)
  then show ?thesis
    by (auto dest!: updateSectionStep_writes)
qed

subsection \<open>The tick and the safety latch\<close>

lemma loop_tripped:
  "thermalSafetyTriggered st \<Longrightarrow> loop lib env st = externalInput lib env (prints trippedLine st)"
  by (simp add: loop_def andThen_def trippedLine_def)

text \<open>A tripped tick with nothing waiting on \<^verbatim>\<open>Serial1\<close> only prints its line: no
  PID state, relay or segment flag changes.\<close>

lemma loop_tripped_idle:
  assumes "thermalSafetyTriggered st" and "serial1Rx st = []"
  shows "loop lib env st = Inr (st\<lparr>serialOut := serialOut st @ trippedLine\<rparr>)"
  using assms by (simp add: loop_tripped externalInput_def prints_def)

text \<open>C2 (defect of the code). The claim is that command processing stays live on both
  channels while the latch is tripped. In a tick that starts tripped,
  \<^verbatim>\<open>processSerialCommands\<close> is not called: a \<^verbatim>\<open>RESET_SAFETY\<close> waiting on \<^verbatim>\<open>Serial\<close>
  is neither read nor answered and the latch stays set, while the tick prints the advice
  to use that command. Only a command from \<^verbatim>\<open>Serial1\<close> is processed.\<close>

theorem loop_tripped_leaves_serial_unread:
  "loop lib env (initial_state\<lparr>thermalSafetyTriggered := True, serialRx := [''RESET_SAFETY'']\<rparr>) =
     Inr (initial_state\<lparr>thermalSafetyTriggered := True, serialRx := [''RESET_SAFETY''],
            serialOut := trippedLine\<rparr>)"
  by (simp add: loop_tripped externalInput_def prints_def initial_state_def)

lemma loop_tripped_external_reset:
  "loop lib env (initial_state\<lparr>thermalSafetyTriggered := True, serial1Rx := [''RESET_SAFETY'']\<rparr>) =
     Inr (initial_state\<lparr>serialOut := trippedLine @
            [Str ''Recebido da Duet: '', Str ''RESET_SAFETY'', NL,
             Str ''Thermal safety state reset. System ready for use.'', NL,
             Str ''Thermal safety state reset (Duet).'', NL]\<rparr>)"
  by (simp add: loop_tripped externalInput_def processExternalCommand_def resetThermalSafety_def
      text_eval prints_def initial_state_def)

text \<open>C3 (amended). A tick that starts with the latch tripped writes no analog channel.
  A tick that starts with the latch clear runs \<^verbatim>\<open>updateTemperaturePWM\<close> for the
  sections 0 to 3 in turn, and the analog writes of the tick are exactly the four
  values these calls write, one for each section; what a call writes is the mapped
  representative temperature of the section (see the theorem on the fallback order).\<close>

theorem loop_section_report_when_not_tripped:
  "(thermalSafetyTriggered st \<and> loop lib env st = Inr st' \<longrightarrow>
      analogWrites st' = analogWrites st) \<and>
   (\<not> thermalSafetyTriggered st \<and> loop lib env st = Inr st' \<longrightarrow>
      (\<exists>st1 a0 b0 a1 b1 a2 b2 a3 v0 v1 v2 v3.
         processSerialCommands lib (statusSamples env) st = Inr st1 \<and>
         updateTemperaturePWM (pwmSamples env) 0 0 3 st1 = Inr a0 \<and>
         analogWrites a0 = analogWrites st1 @ [(0, v0)] \<and>
         controlHeating (heatSamples env) 0 0 3 a0 = Inr b0 \<and>
         updateTemperaturePWM (pwmSamples env) 1 4 7 b0 = Inr a1 \<and>
         analogWrites a1 = analogWrites b0 @ [(1, v1)] \<and>
         controlHeating (heatSamples env) 1 4 7 a1 = Inr b1 \<and>
         updateTemperaturePWM (pwmSamples env) 2 8 11 b1 = Inr a2 \<and>
         analogWrites a2 = analogWrites b1 @ [(2, v2)] \<and>
         controlHeating (heatSamples env) 2 8 11 a2 = Inr b2 \<and>
         updateTemperaturePWM (pwmSamples env) 3 12 15 b2 = Inr a3 \<and>
         analogWrites a3 = analogWrites b2 @ [(3, v3)] \<and>
         analogWrites st' = analogWrites st @ [(0, v0), (1, v1), (2, v2), (3, v3)]))"
proof (intro conjI impI)
  assume "thermalSafetyTriggered st \<and> loop lib env st = Inr st'"
  then have "externalInput lib env (prints trippedLine st) = Inr st'"
    using loop_tripped [of st lib env] by simp
  from externalInput_writes [OF this] show "analogWrites st' = analogWrites st" by simp
next
  assume a: "\<not> thermalSafetyTriggered st \<and> loop lib env st = Inr st'"
  then obtain st1 st2 st3 st4 st5 where
    c: "processSerialCommands lib (statusSamples env) st = Inr st1"
    and u: "updateAllSections env st1 = Inr st2"
    and p: "forEach [0..<NUM_SECTIONS] (pidSectionStep env)
              (printActiveSegmentsPeriodically (printClock env) st2) = Inr st3"
    and s: "checkThermalSafety (safetySamples env) st3 = Inr st4"
    and d: "(if debugMode st4 then debugMonitor (debugSamples env) st4 else Inr st4) = Inr st5"
    and x: "externalInput lib env st5 = Inr st'"
    by (auto simp: loop_def andThen_Inr)
  have l: "[0..<4] = [0, 1, 2, 3]" by (simp add: upt_rec)
  from u obtain a0 b0 a1 b1 a2 b2 a3 where
    s0: "updateTemperaturePWM (pwmSamples env) 0 0 3 st1 = Inr a0"
      "controlHeating (heatSamples env) 0 0 3 a0 = Inr b0"
    and s1: "updateTemperaturePWM (pwmSamples env) 1 4 7 b0 = Inr a1"
      "controlHeating (heatSamples env) 1 4 7 a1 = Inr b1"
    and s2: "updateTemperaturePWM (pwmSamples env) 2 8 11 b1 = Inr a2"
      "controlHeating (heatSamples env) 2 8 11 a2 = Inr b2"
    and s3: "updateTemperaturePWM (pwmSamples env) 3 12 15 b2 = Inr a3"
      "controlHeating (heatSamples env) 3 12 15 a3 = Inr st2"
    unfolding updateAllSections_def l by (auto simp: andThen_Inr updateSectionStep_def)
  from updateTemperaturePWM_writes [OF s0(1)] obtain v0 where
    w0: "analogWrites a0 = analogWrites st1 @ [(0, v0)]" by blast
  from updateTemperaturePWM_writes [OF s1(1)] obtain v1 where
    w1: "analogWrites a1 = analogWrites b0 @ [(1, v1)]" by blast
  from updateTemperaturePWM_writes [OF s2(1)] obtain v2 where
    w2: "analogWrites a2 = analogWrites b1 @ [(2, v2)]" by blast
  from updateTemperaturePWM_writes [OF s3(1)] obtain v3 where
    w3: "analogWrites a3 = analogWrites b2 @ [(3, v3)]" by blast
  have w: "analogWrites st2 = analogWrites st @ [(0, v0), (1, v1), (2, v2), (3, v3)]"
    using processSerialCommands_writes [OF c] w0 w1 w2 w3
      controlHeating_writes [OF s0(2)] controlHeating_writes [OF s1(2)]
      controlHeating_writes [OF s2(2)] controlHeating_writes [OF s3(2)]
    by simp
  have "analogWrites st3 = analogWrites st2"
    by (rule forEach_invariant [OF p, where P = "\<lambda>s. analogWrites s = analogWrites st2"])
      (auto simp: pidSectionStep_def dest: controlHeatingWithPID_writes)
  moreover have "analogWrites st4 = analogWrites st3"
    using s by (simp add: checkThermalSafety_def checkThermalSafetyFrom_writes)
  moreover have "analogWrites st5 = analogWrites st4"
    using d by (auto split: if_splits dest: debugMonitor_writes)
  moreover have "analogWrites st' = analogWrites st5"
    using x by (rule externalInput_writes)
  ultimately have "analogWrites st' = analogWrites st @ [(0, v0), (1, v1), (2, v2), (3, v3)]"
    using w by simp
  with c s0 s1 s2 s3 w0 w1 w2 w3
  show "\<exists>st1 a0 b0 a1 b1 a2 b2 a3 v0 v1 v2 v3.
         processSerialCommands lib (statusSamples env) st = Inr st1 \<and>
         updateTemperaturePWM (pwmSamples env) 0 0 3 st1 = Inr a0 \<and>
         analogWrites a0 = analogWrites st1 @ [(0, v0)] \<and>
         controlHeating (heatSamples env) 0 0 3 a0 = Inr b0 \<and>
         updateTemperaturePWM (pwmSamples env) 1 4 7 b0 = Inr a1 \<and>
         analogWrites a1 = analogWrites b0 @ [(1, v1)] \<and>
         controlHeating (heatSamples env) 1 4 7 a1 = Inr b1 \<and>
         updateTemperaturePWM (pwmSamples env) 2 8 11 b1 = Inr a2 \<and>
         analogWrites a2 = analogWrites b1 @ [(2, v2)] \<and>
         controlHeating (heatSamples env) 2 8 11 a2 = Inr b2 \<and>
         updateTemperaturePWM (pwmSamples env) 3 12 15 b2 = Inr a3 \<and>
         analogWrites a3 = analogWrites b2 @ [(3, v3)] \<and>
         analogWrites st' = analogWrites st @ [(0, v0), (1, v1), (2, v2), (3, v3)]"
    by blast
qed

lemma quiet_tick_writes:
  "map_sum id analogWrites (loop sampleLib quietEnv initial_state) =
     Inr [(0, 246), (1, 246), (2, 246), (3, 246)]"
  by code_simp

theorem loop_section_report_when_not_tripped_witness:
  "(\<exists>st'. loop sampleLib quietEnv initial_state = Inr st' \<and>
      analogWrites st' = [(0, 246), (1, 246), (2, 246), (3, 246)]) \<and>
   (\<exists>st'. loop sampleLib quietEnv (initial_state\<lparr>thermalSafetyTriggered := True\<rparr>) = Inr st' \<and>
      analogWrites st' = [])"
proof -
  from quiet_tick_writes obtain st' where
    r: "loop sampleLib quietEnv initial_state = Inr st'"
    and w: "analogWrites st' = [(0, 246), (1, 246), (2, 246), (3, 246)]"
    by (cases "loop sampleLib quietEnv initial_state") auto
  have n: "\<not> thermalSafetyTriggered initial_state" by (simp add: initial_state_def)
  from loop_section_report_when_not_tripped [of initial_state sampleLib quietEnv st'] n r
  have "\<exists>v0 v1 v2 v3. analogWrites st' =
      analogWrites initial_state @ [(0, v0), (1, v1), (2, v2), (3, v3)]"
    by blast
  with r w have 1: "\<exists>st'. loop sampleLib quietEnv initial_state = Inr st' \<and>
      analogWrites st' = [(0, 246), (1, 246), (2, 246), (3, 246)]" by blast
  let ?t = "initial_state\<lparr>thermalSafetyTriggered := True\<rparr>"
  have t: "loop sampleLib quietEnv ?t = Inr (prints trippedLine ?t)"
    by (simp add: loop_tripped externalInput_def prints_def initial_state_def)
  have "thermalSafetyTriggered ?t" by simp
  with loop_section_report_when_not_tripped [of ?t sampleLib quietEnv "prints trippedLine ?t"] t
  have "analogWrites (prints trippedLine ?t) = analogWrites ?t" by blast
  with t have 2: "\<exists>st'. loop sampleLib quietEnv ?t = Inr st' \<and> analogWrites st' = []"
    by (simp add: initial_state_def)
  from 1 2 show ?thesis by blast
qed

text \<open>A tick in the tripped state drives no section channel.\<close>

theorem loop_tripped_no_report_counterexample:
  "thermalSafetyTriggered (initial_state\<lparr>thermalSafetyTriggered := True\<rparr>) \<and>
   (\<exists>st'. loop sampleLib quietEnv (initial_state\<lparr>thermalSafetyTriggered := True\<rparr>) = Inr st' \<and>
      analogWrites st' = [])"
  by (simp add: loop_tripped externalInput_def prints_def initial_state_def)

end
